theory Spec2Isabelle
  imports Complex_Main "HOL-Library.AList"
begin

section \<open>Python values used by the requirement graph\<close>

text \<open>
  A Python \<open>dict\<close> keeps its keys in insertion order: assigning to an existing key keeps
  the key's position, assigning to a new key appends it. An association list with
  \<open>AList.update\<close> behaves the same way; \<open>map_of\<close> is \<open>dict.get\<close>, \<open>map snd\<close> is
  \<open>dict.values()\<close>.
\<close>

type_synonym ('k, 'v) dict = "('k \<times> 'v) list"

datatype py_error =
    KeyError string
  | ValueError string
  | UnboundLocalError string


text \<open>
  \<open>datetime\<close> of the standard library, naive timestamps (what \<open>datetime.now()\<close> returns).
\<close>

record datetime =
  year :: nat
  month :: nat
  day :: nat
  hour :: nat
  minute :: nat
  second :: nat
  microsecond :: nat

text \<open>The values a \<open>metadata\<close> dictionary holds (JSON scalars).\<close>

datatype py_value = VNone | VBool bool | VInt int | VStr string

section \<open>Data model (core/graph.py)\<close>

datatype NodeType =
    DOCUMENT | REQUIREMENT | CONDITION | CHECKBOX | SIGNATURE | FIELD | ATTACHMENT | DEADLINE

datatype EdgeType =
    REQUIRES | REQUIRED_BY | CONDITIONAL_ON | TRIGGERS | PART_OF | REFERENCES
  | MUTUALLY_EXCLUSIVE | DEPENDS_ON

datatype CompletionStatus =
    NOT_STARTED | IN_PROGRESS | COMPLETED | NOT_APPLICABLE | BLOCKED

fun NodeType_value :: "NodeType \<Rightarrow> string" where
  "NodeType_value DOCUMENT = ''document''"
| "NodeType_value REQUIREMENT = ''requirement''"
| "NodeType_value CONDITION = ''condition''"
| "NodeType_value CHECKBOX = ''checkbox''"
| "NodeType_value SIGNATURE = ''signature''"
| "NodeType_value FIELD = ''field''"
| "NodeType_value ATTACHMENT = ''attachment''"
| "NodeType_value DEADLINE = ''deadline''"

fun EdgeType_value :: "EdgeType \<Rightarrow> string" where
  "EdgeType_value REQUIRES = ''requires''"
| "EdgeType_value REQUIRED_BY = ''required_by''"
| "EdgeType_value CONDITIONAL_ON = ''conditional_on''"
| "EdgeType_value TRIGGERS = ''triggers''"
| "EdgeType_value PART_OF = ''part_of''"
| "EdgeType_value REFERENCES = ''references''"
| "EdgeType_value MUTUALLY_EXCLUSIVE = ''mutually_exclusive''"
| "EdgeType_value DEPENDS_ON = ''depends_on''"

fun CompletionStatus_value :: "CompletionStatus \<Rightarrow> string" where
  "CompletionStatus_value NOT_STARTED = ''not_started''"
| "CompletionStatus_value IN_PROGRESS = ''in_progress''"
| "CompletionStatus_value COMPLETED = ''completed''"
| "CompletionStatus_value NOT_APPLICABLE = ''not_applicable''"
| "CompletionStatus_value BLOCKED = ''blocked''"

text \<open>
  The field \<open>id\<close> of the source is \<open>node_id\<close> for a node and \<open>edge_id\<close> for an edge;
  \<open>notes\<close> is \<open>node_notes\<close>; \<open>confidence\<close> is a Python float that the graph only
  stores, kept here as a rational.
\<close>

record Node =
  node_id :: string
  node_type :: NodeType
  title :: string
  description :: string
  status :: CompletionStatus
  source_document :: "string option"
  source_location :: "string option"
  source_text :: "string option"
  checkbox_state :: "bool option"
  condition_met :: "bool option"
  deadline :: "datetime option"
  created_at :: datetime
  updated_at :: datetime
  confidence :: rat
  tags :: "string list"
  metadata :: "(string, py_value) dict"
  node_notes :: "string option"

record Edge =
  edge_id :: string
  source_id :: string
  target_id :: string
  edge_type :: EdgeType
  edge_description :: "string option"
  edge_confidence :: rat
  edge_metadata :: "(string, py_value) dict"

definition Node_init :: "string \<Rightarrow> NodeType \<Rightarrow> string \<Rightarrow> string \<Rightarrow> datetime \<Rightarrow> datetime \<Rightarrow> Node" where
  \<comment> \<open>\<open>Node(id, type, title, description)\<close>: every other field takes its default; the two
      default factories of \<open>created_at\<close> and \<open>updated_at\<close> read the clock\<close>
  "Node_init i t ti de now1 now2 =
     \<lparr>node_id = i, node_type = t, title = ti, description = de, status = NOT_STARTED,
      source_document = None, source_location = None, source_text = None,
      checkbox_state = None, condition_met = None, deadline = None,
      created_at = now1, updated_at = now2, confidence = 1, tags = [], metadata = [],
      node_notes = None\<rparr>"

definition Edge_init :: "string \<Rightarrow> string \<Rightarrow> string \<Rightarrow> EdgeType \<Rightarrow> Edge" where
  \<comment> \<open>\<open>Edge(id, source_id, target_id, type)\<close> with the defaults\<close>
  "Edge_init i s t ty =
     \<lparr>edge_id = i, source_id = s, target_id = t, edge_type = ty, edge_description = None,
      edge_confidence = 1, edge_metadata = []\<rparr>"

text \<open>
  The graph object. Node and edge objects are identified with the entries of the two
  dictionaries: \<open>add_node\<close> stores a node under \<open>node.id\<close>, \<open>add_edge\<close> stores an edge
  under \<open>edge.id\<close>, and no method assigns to an \<open>id\<close>, so mutating an object that was
  looked up is updating the entry under its id.
\<close>

record Graph =
  nodes :: "(string, Node) dict"
  edges :: "(string, Edge) dict"
  adjacency :: "(string, string list) dict"
  reverse_adjacency :: "(string, string list) dict"

definition empty_graph :: Graph where
  "empty_graph = \<lparr>nodes = [], edges = [], adjacency = [], reverse_adjacency = []\<rparr>"

section \<open>Graph store (core/graph.py)\<close>

definition init_index :: "(string, string list) dict \<Rightarrow> string \<Rightarrow> (string, string list) dict" where
  \<comment> \<open>\<open>if k not in index: index[k] = []\<close>\<close>
  "init_index index k = (case map_of index k of None \<Rightarrow> AList.update k [] index | Some _ \<Rightarrow> index)"

definition index_get :: "(string, string list) dict \<Rightarrow> string \<Rightarrow> string list" where
  \<comment> \<open>\<open>index.get(k, [])\<close>\<close>
  "index_get index k = (case map_of index k of None \<Rightarrow> [] | Some l \<Rightarrow> l)"

definition index_append :: "(string, string list) dict \<Rightarrow> string \<Rightarrow> string \<Rightarrow> (string, string list) dict" where
  \<comment> \<open>\<open>if k not in index: index[k] = []\<close> followed by \<open>index[k].append(eid)\<close>\<close>
  "index_append index k eid =
     (let index1 = init_index index k in AList.update k (index_get index1 k @ [eid]) index1)"

definition add_node :: "Graph \<Rightarrow> Node \<Rightarrow> Graph" where
  "add_node g node =
     g\<lparr>nodes := AList.update (node_id node) node (nodes g),
       adjacency := init_index (adjacency g) (node_id node),
       reverse_adjacency := init_index (reverse_adjacency g) (node_id node)\<rparr>"

definition add_edge :: "Graph \<Rightarrow> Edge \<Rightarrow> Graph" where
  "add_edge g edge =
     g\<lparr>edges := AList.update (edge_id edge) edge (edges g),
       adjacency := index_append (adjacency g) (source_id edge) (edge_id edge),
       reverse_adjacency := index_append (reverse_adjacency g) (target_id edge) (edge_id edge)\<rparr>"

definition get_node :: "Graph \<Rightarrow> string \<Rightarrow> Node option" where
  "get_node g nid = map_of (nodes g) nid"

fun lookup_edges :: "(string, Edge) dict \<Rightarrow> string list \<Rightarrow> py_error + Edge list" where
  \<comment> \<open>\<open>[self.edges[eid] for eid in edge_ids]\<close>: the first missing id raises KeyError\<close>
  "lookup_edges es [] = Inr []"
| "lookup_edges es (eid # eids) =
     (case map_of es eid of
        None \<Rightarrow> Inl (KeyError eid)
      | Some e \<Rightarrow>
          (case lookup_edges es eids of
             Inl err \<Rightarrow> Inl err
           | Inr rest \<Rightarrow> Inr (e # rest)))"

definition get_outgoing_edges :: "Graph \<Rightarrow> string \<Rightarrow> py_error + Edge list" where
  "get_outgoing_edges g nid = lookup_edges (edges g) (index_get (adjacency g) nid)"

definition get_incoming_edges :: "Graph \<Rightarrow> string \<Rightarrow> py_error + Edge list" where
  "get_incoming_edges g nid = lookup_edges (edges g) (index_get (reverse_adjacency g) nid)"

definition is_dependency_type :: "EdgeType \<Rightarrow> bool" where
  \<comment> \<open>\<open>edge.type in (EdgeType.DEPENDS_ON, EdgeType.REQUIRES, EdgeType.CONDITIONAL_ON)\<close>\<close>
  "is_dependency_type t = (t = DEPENDS_ON \<or> t = REQUIRES \<or> t = CONDITIONAL_ON)"

fun dependency_targets :: "Graph \<Rightarrow> Edge list \<Rightarrow> Node list" where
  \<comment> \<open>the loop of \<open>get_dependencies\<close>\<close>
  "dependency_targets g [] = []"
| "dependency_targets g (edge # rest) =
     (if is_dependency_type (edge_type edge) then
        (case get_node g (target_id edge) of
           Some target \<Rightarrow> target # dependency_targets g rest
         | None \<Rightarrow> dependency_targets g rest)
      else dependency_targets g rest)"

definition get_dependencies :: "Graph \<Rightarrow> string \<Rightarrow> py_error + Node list" where
  "get_dependencies g nid =
     (case get_outgoing_edges g nid of
        Inl err \<Rightarrow> Inl err
      | Inr es \<Rightarrow> Inr (dependency_targets g es))"

fun dependent_sources :: "Graph \<Rightarrow> Edge list \<Rightarrow> Node list" where
  \<comment> \<open>the loop of \<open>get_dependents\<close>\<close>
  "dependent_sources g [] = []"
| "dependent_sources g (edge # rest) =
     (if is_dependency_type (edge_type edge) then
        (case get_node g (source_id edge) of
           Some source \<Rightarrow> source # dependent_sources g rest
         | None \<Rightarrow> dependent_sources g rest)
      else dependent_sources g rest)"

definition get_dependents :: "Graph \<Rightarrow> string \<Rightarrow> py_error + Node list" where
  "get_dependents g nid =
     (case get_incoming_edges g nid of
        Inl err \<Rightarrow> Inl err
      | Inr es \<Rightarrow> Inr (dependent_sources g es))"

definition get_nodes_by_type :: "Graph \<Rightarrow> NodeType \<Rightarrow> Node list" where
  "get_nodes_by_type g t = filter (\<lambda>n. node_type n = t) (map snd (nodes g))"

definition get_nodes_by_status :: "Graph \<Rightarrow> CompletionStatus \<Rightarrow> Node list" where
  "get_nodes_by_status g s = filter (\<lambda>n. status n = s) (map snd (nodes g))"


definition py_lower_char :: "char \<Rightarrow> char" where
  \<comment> \<open>\<open>str.lower()\<close> on one code point below 256: A-Z and the Latin-1 capitals
      (U+00C0 to U+00DE without the multiplication sign U+00D7) move up by 32\<close>
  "py_lower_char c =
     (let n = (of_char c :: nat) in
      if (65 \<le> n \<and> n \<le> 90) \<or> (192 \<le> n \<and> n \<le> 222 \<and> n \<noteq> 215) then char_of (n + 32) else c)"

definition py_lower :: "string \<Rightarrow> string" where
  "py_lower s = map py_lower_char s"

fun starts_with :: "string \<Rightarrow> string \<Rightarrow> bool" where
  "starts_with [] t = True"
| "starts_with (c # cs) [] = False"
| "starts_with (c # cs) (d # ds) = (c = d \<and> starts_with cs ds)"

fun py_in :: "string \<Rightarrow> string \<Rightarrow> bool" where
  \<comment> \<open>\<open>sub in text\<close> on strings\<close>
  "py_in sub [] = (sub = [])"
| "py_in sub (c # cs) = (starts_with sub (c # cs) \<or> py_in sub cs)"

definition find_nodes :: "Graph \<Rightarrow> string \<Rightarrow> Node list" where
  "find_nodes g query =
     (let query_lower = py_lower query in
      filter (\<lambda>n. py_in query_lower (py_lower (title n)) \<or> py_in query_lower (py_lower (description n)))
        (map snd (nodes g)))"

text \<open>
  \<open>datetime.now()\<close> is a clock that the caller supplies: \<open>now k\<close> is what the \<open>k\<close>-th
  reading of the clock inside one call returns.
\<close>

fun propagate_loop :: "(nat \<Rightarrow> datetime) \<Rightarrow> nat \<Rightarrow> Graph \<Rightarrow> Node list \<Rightarrow> py_error + Graph" where
  \<comment> \<open>the loop of \<open>_propagate_completion\<close> over the list that \<open>get_dependents\<close> returned;
      \<open>dependent.status\<close> reads the object as it is now\<close>
  "propagate_loop now k g [] = Inr g"
| "propagate_loop now k g (d # rest) =
     (case get_node g (node_id d) of
        None \<Rightarrow> propagate_loop now k g rest
      | Some dependent_node \<Rightarrow>
          if status dependent_node = BLOCKED then
            (case get_dependencies g (node_id dependent_node) of
               Inl err \<Rightarrow> Inl err
             | Inr deps \<Rightarrow>
                 if list_all (\<lambda>dep. status dep = COMPLETED) deps then
                   propagate_loop now (Suc k)
                     (g\<lparr>nodes := AList.map_entry (node_id dependent_node)
                                    (\<lambda>n. n\<lparr>status := NOT_STARTED, updated_at := now k\<rparr>) (nodes g)\<rparr>)
                     rest
                 else propagate_loop now k g rest)
          else propagate_loop now k g rest)"

definition propagate_completion :: "(nat \<Rightarrow> datetime) \<Rightarrow> nat \<Rightarrow> Graph \<Rightarrow> string \<Rightarrow> py_error + Graph" where
  "propagate_completion now k g completed_node_id =
     (case get_dependents g completed_node_id of
        Inl err \<Rightarrow> Inl err
      | Inr dependents \<Rightarrow> propagate_loop now k g dependents)"

definition update_status ::
  "(nat \<Rightarrow> datetime) \<Rightarrow> Graph \<Rightarrow> string \<Rightarrow> CompletionStatus \<Rightarrow> py_error + (Graph \<times> Node option)" where
  \<comment> \<open>returns the graph after the call and the returned node (\<open>None\<close> for an unknown id)\<close>
  "update_status now g nid new_status =
     (case get_node g nid of
        None \<Rightarrow> Inr (g, None)
      | Some node \<Rightarrow>
          (let g1 = g\<lparr>nodes := AList.map_entry nid
                                  (\<lambda>n. n\<lparr>status := new_status, updated_at := now 0\<rparr>) (nodes g)\<rparr>
           in if new_status = COMPLETED then
                (case propagate_completion now 1 g1 nid of
                   Inl err \<Rightarrow> Inl err
                 | Inr g2 \<Rightarrow> Inr (g2, get_node g2 nid))
              else Inr (g1, get_node g1 nid)))"

fun conditional_edges_loop :: "Graph \<Rightarrow> Node \<Rightarrow> Edge list \<Rightarrow> Graph" where
  \<comment> \<open>the inner loop of \<open>evaluate_conditions\<close> for one condition node\<close>
  "conditional_edges_loop g node [] = g"
| "conditional_edges_loop g node (edge # rest) =
     (if edge_type edge = CONDITIONAL_ON then
        (case get_node g (source_id edge) of
           None \<Rightarrow> conditional_edges_loop g node rest
         | Some dependent_node \<Rightarrow>
             if condition_met node = Some False then
               conditional_edges_loop
                 (g\<lparr>nodes := AList.map_entry (source_id edge) (\<lambda>n. n\<lparr>status := NOT_APPLICABLE\<rparr>) (nodes g)\<rparr>)
                 node rest
             else if status dependent_node = NOT_APPLICABLE then
               conditional_edges_loop
                 (g\<lparr>nodes := AList.map_entry (source_id edge) (\<lambda>n. n\<lparr>status := NOT_STARTED\<rparr>) (nodes g)\<rparr>)
                 node rest
             else conditional_edges_loop g node rest)
      else conditional_edges_loop g node rest)"

fun evaluate_conditions_loop :: "Graph \<Rightarrow> Node list \<Rightarrow> py_error + Graph" where
  "evaluate_conditions_loop g [] = Inr g"
| "evaluate_conditions_loop g (node # rest) =
     (case get_incoming_edges g (node_id node) of
        Inl err \<Rightarrow> Inl err
      | Inr es \<Rightarrow> evaluate_conditions_loop (conditional_edges_loop g node es) rest)"

definition evaluate_conditions :: "Graph \<Rightarrow> py_error + Graph" where
  "evaluate_conditions g = evaluate_conditions_loop g (get_nodes_by_type g CONDITION)"

fun actionable_loop :: "Graph \<Rightarrow> Node list \<Rightarrow> py_error + Node list" where
  \<comment> \<open>the loop of \<open>get_actionable_items\<close> over \<open>self.nodes.values()\<close>\<close>
  "actionable_loop g [] = Inr []"
| "actionable_loop g (node # rest) =
     (if \<not> (status node = NOT_STARTED \<or> status node = IN_PROGRESS) then actionable_loop g rest
      else
        (case get_dependencies g (node_id node) of
           Inl err \<Rightarrow> Inl err
         | Inr deps \<Rightarrow>
             (case actionable_loop g rest of
                Inl err \<Rightarrow> Inl err
              | Inr actionable \<Rightarrow>
                  if list_all (\<lambda>dep. status dep = COMPLETED \<or> status dep = NOT_APPLICABLE) deps
                  then Inr (node # actionable)
                  else Inr actionable)))"

definition get_actionable_items :: "Graph \<Rightarrow> py_error + Node list" where
  "get_actionable_items g = actionable_loop g (map snd (nodes g))"

subsection \<open>Completion statistics\<close>

text \<open>
  The percentage is computed in Python floats. The three float operations that
  \<open>get_completion_stats\<close> uses are parameters of the model: true division of two
  integers, multiplication of a float by an integer, and \<open>round(x, ndigits)\<close>.
  \<open>round\<close> of a Python integer with non-negative \<open>ndigits\<close> is that integer.
\<close>

record 'f float_ops =
  truediv :: "int \<Rightarrow> int \<Rightarrow> 'f"
  mul_int :: "'f \<Rightarrow> int \<Rightarrow> 'f"
  round_ndigits :: "'f \<Rightarrow> nat \<Rightarrow> 'f"

datatype 'f py_number = PyInt int | PyFloat 'f

definition py_round :: "'f float_ops \<Rightarrow> 'f py_number \<Rightarrow> nat \<Rightarrow> 'f py_number" where
  "py_round fl x ndigits =
     (case x of PyInt i \<Rightarrow> PyInt i | PyFloat y \<Rightarrow> PyFloat (round_ndigits fl y ndigits))"

record 'f CompletionStats =
  total_nodes :: int
  by_status :: "(string, int) dict"
  completion_percentage :: "'f py_number"
  applicable_items :: int
  completed_items :: int

definition dict_item :: "(string, 'v) dict \<Rightarrow> string \<Rightarrow> py_error + 'v" where
  \<comment> \<open>\<open>d[k]\<close>\<close>
  "dict_item d k = (case map_of d k of None \<Rightarrow> Inl (KeyError k) | Some v \<Rightarrow> Inr v)"

fun count_statuses :: "(string, int) dict \<Rightarrow> Node list \<Rightarrow> py_error + (string, int) dict" where
  \<comment> \<open>\<open>for node in self.nodes.values(): stats[node.status.value] += 1\<close>\<close>
  "count_statuses stats [] = Inr stats"
| "count_statuses stats (node # rest) =
     (case dict_item stats (CompletionStatus_value (status node)) of
        Inl err \<Rightarrow> Inl err
      | Inr c \<Rightarrow> count_statuses (AList.update (CompletionStatus_value (status node)) (c + 1) stats) rest)"

definition all_statuses :: "CompletionStatus list" where
  \<comment> \<open>iteration over the enum, in declaration order\<close>
  "all_statuses = [NOT_STARTED, IN_PROGRESS, COMPLETED, NOT_APPLICABLE, BLOCKED]"

definition get_completion_stats :: "'f float_ops \<Rightarrow> Graph \<Rightarrow> py_error + 'f CompletionStats" where
  "get_completion_stats fl g =
     (case count_statuses (map (\<lambda>s. (CompletionStatus_value s, 0)) all_statuses) (map snd (nodes g)) of
        Inl err \<Rightarrow> Inl err
      | Inr stats \<Rightarrow>
          (let total = int (length (nodes g)) in
           case dict_item stats (CompletionStatus_value COMPLETED) of
             Inl err \<Rightarrow> Inl err
           | Inr completed \<Rightarrow>
               (case dict_item stats (CompletionStatus_value NOT_APPLICABLE) of
                  Inl err \<Rightarrow> Inl err
                | Inr not_applicable \<Rightarrow>
                    (let applicable_total = total - not_applicable;
                         percentage =
                           (if applicable_total > 0
                            then PyFloat (mul_int fl (truediv fl completed applicable_total) 100)
                            else PyInt 0)
                     in Inr \<lparr>total_nodes = total,
                             by_status = stats,
                             completion_percentage = py_round fl percentage 1,
                             applicable_items = applicable_total,
                             completed_items = completed\<rparr>))))"

subsection \<open>Merging duplicates\<close>




definition truthy :: "string option \<Rightarrow> bool" where
  \<comment> \<open>truth value of an \<open>Optional[str]\<close>: neither \<open>None\<close> nor the empty string\<close>
  "truthy s = (case s of None \<Rightarrow> False | Some t \<Rightarrow> t \<noteq> [])"



subsection \<open>Serialization\<close>

text \<open>
  The plain nested structure that \<open>to_dict\<close> produces: every key is present, enum values
  are their string tokens, timestamps are text. \<open>isoformat\<close> and \<open>fromisoformat\<close> belong
  to the standard library and are parameters \<open>isoformat\<close> and \<open>fromiso\<close> of the model;
  \<open>fromiso s = None\<close> stands for the ValueError that \<open>fromisoformat\<close> raises.
\<close>

record Node_dict =
  d_id :: string
  d_type :: string
  d_title :: string
  d_description :: string
  d_status :: string
  d_source_document :: "string option"
  d_source_location :: "string option"
  d_source_text :: "string option"
  d_checkbox_state :: "bool option"
  d_condition_met :: "bool option"
  d_deadline :: "string option"
  d_created_at :: string
  d_updated_at :: string
  d_confidence :: rat
  d_tags :: "string list"
  d_metadata :: "(string, py_value) dict"
  d_notes :: "string option"

record Edge_dict =
  de_id :: string
  de_source_id :: string
  de_target_id :: string
  de_type :: string
  de_description :: "string option"
  de_confidence :: rat
  de_metadata :: "(string, py_value) dict"

record Graph_dict =
  d_nodes :: "Node_dict list"
  d_edges :: "Edge_dict list"

definition NodeType_of :: "string \<Rightarrow> NodeType option" where
  \<comment> \<open>\<open>NodeType(value)\<close>: the member with that value, if any\<close>
  "NodeType_of s =
     find (\<lambda>t. NodeType_value t = s)
       [DOCUMENT, REQUIREMENT, CONDITION, CHECKBOX, SIGNATURE, FIELD, ATTACHMENT, DEADLINE]"

definition EdgeType_of :: "string \<Rightarrow> EdgeType option" where
  "EdgeType_of s =
     find (\<lambda>t. EdgeType_value t = s)
       [REQUIRES, REQUIRED_BY, CONDITIONAL_ON, TRIGGERS, PART_OF, REFERENCES, MUTUALLY_EXCLUSIVE,
        DEPENDS_ON]"

definition CompletionStatus_of :: "string \<Rightarrow> CompletionStatus option" where
  "CompletionStatus_of s = find (\<lambda>t. CompletionStatus_value t = s) all_statuses"

definition Node_to_dict :: "(datetime \<Rightarrow> string) \<Rightarrow> Node \<Rightarrow> Node_dict" where
  "Node_to_dict isoformat n =
     \<lparr>d_id = node_id n,
      d_type = NodeType_value (node_type n),
      d_title = title n,
      d_description = description n,
      d_status = CompletionStatus_value (status n),
      d_source_document = source_document n,
      d_source_location = source_location n,
      d_source_text = source_text n,
      d_checkbox_state = checkbox_state n,
      d_condition_met = condition_met n,
      d_deadline = (case deadline n of None \<Rightarrow> None | Some d \<Rightarrow> Some (isoformat d)),
      d_created_at = isoformat (created_at n),
      d_updated_at = isoformat (updated_at n),
      d_confidence = confidence n,
      d_tags = tags n,
      d_metadata = metadata n,
      d_notes = node_notes n\<rparr>"

definition Node_from_dict :: "(string \<Rightarrow> datetime option) \<Rightarrow> Node_dict \<Rightarrow> py_error + Node" where
  \<comment> \<open>the arguments of \<open>cls(...)\<close> are evaluated in the order written, so the first
      failing conversion is the error raised\<close>
  "Node_from_dict fromiso data =
     (case NodeType_of (d_type data) of
        None \<Rightarrow> Inl (ValueError (d_type data))
      | Some t \<Rightarrow>
          (case CompletionStatus_of (d_status data) of
             None \<Rightarrow> Inl (ValueError (d_status data))
           | Some s \<Rightarrow>
               (case (if truthy (d_deadline data) then map_option Some (fromiso (the (d_deadline data)))
                      else Some None) of
                  None \<Rightarrow> Inl (ValueError (the (d_deadline data)))
                | Some dl \<Rightarrow>
                    (case fromiso (d_created_at data) of
                       None \<Rightarrow> Inl (ValueError (d_created_at data))
                     | Some c \<Rightarrow>
                         (case fromiso (d_updated_at data) of
                            None \<Rightarrow> Inl (ValueError (d_updated_at data))
                          | Some u \<Rightarrow>
                              Inr \<lparr>node_id = d_id data, node_type = t, title = d_title data,
                                   description = d_description data, status = s,
                                   source_document = d_source_document data,
                                   source_location = d_source_location data,
                                   source_text = d_source_text data,
                                   checkbox_state = d_checkbox_state data,
                                   condition_met = d_condition_met data,
                                   deadline = dl, created_at = c, updated_at = u,
                                   confidence = d_confidence data, tags = d_tags data,
                                   metadata = d_metadata data, node_notes = d_notes data\<rparr>)))))"

definition Edge_to_dict :: "Edge \<Rightarrow> Edge_dict" where
  "Edge_to_dict e =
     \<lparr>de_id = edge_id e, de_source_id = source_id e, de_target_id = target_id e,
      de_type = EdgeType_value (edge_type e), de_description = edge_description e,
      de_confidence = edge_confidence e, de_metadata = edge_metadata e\<rparr>"

definition Edge_from_dict :: "Edge_dict \<Rightarrow> py_error + Edge" where
  "Edge_from_dict data =
     (case EdgeType_of (de_type data) of
        None \<Rightarrow> Inl (ValueError (de_type data))
      | Some t \<Rightarrow>
          Inr \<lparr>edge_id = de_id data, source_id = de_source_id data, target_id = de_target_id data,
               edge_type = t, edge_description = de_description data,
               edge_confidence = de_confidence data, edge_metadata = de_metadata data\<rparr>)"

definition to_dict :: "(datetime \<Rightarrow> string) \<Rightarrow> Graph \<Rightarrow> Graph_dict" where
  "to_dict isoformat g =
     \<lparr>d_nodes = map (Node_to_dict isoformat) (map snd (nodes g)),
      d_edges = map Edge_to_dict (map snd (edges g))\<rparr>"

fun from_dict_nodes :: "(string \<Rightarrow> datetime option) \<Rightarrow> Graph \<Rightarrow> Node_dict list \<Rightarrow> py_error + Graph" where
  "from_dict_nodes fromiso g [] = Inr g"
| "from_dict_nodes fromiso g (node_data # rest) =
     (case Node_from_dict fromiso node_data of
        Inl err \<Rightarrow> Inl err
      | Inr n \<Rightarrow> from_dict_nodes fromiso (add_node g n) rest)"

fun from_dict_edges :: "Graph \<Rightarrow> Edge_dict list \<Rightarrow> py_error + Graph" where
  "from_dict_edges g [] = Inr g"
| "from_dict_edges g (edge_data # rest) =
     (case Edge_from_dict edge_data of
        Inl err \<Rightarrow> Inl err
      | Inr e \<Rightarrow> from_dict_edges (add_edge g e) rest)"

definition from_dict :: "(string \<Rightarrow> datetime option) \<Rightarrow> Graph_dict \<Rightarrow> py_error + Graph" where
  "from_dict fromiso data =
     (case from_dict_nodes fromiso empty_graph (d_nodes data) of
        Inl err \<Rightarrow> Inl err
      | Inr g \<Rightarrow> from_dict_edges g (d_edges data))"

section \<open>Extractor (core/extractor.py)\<close>

subsection \<open>String helpers of the standard library\<close>

definition py_isspace :: "char \<Rightarrow> bool" where
  \<comment> \<open>\<open>str.isspace()\<close> on one code point below 256\<close>
  "py_isspace c = ((of_char c :: nat) \<in> {9, 10, 11, 12, 13, 28, 29, 30, 31, 32, 133, 160})"

definition py_strip :: "string \<Rightarrow> string" where
  "py_strip s = rev (dropWhile py_isspace (rev (dropWhile py_isspace s)))"

fun split_commas :: "string \<Rightarrow> string list" where
  \<comment> \<open>\<open>s.split(",")\<close>\<close>
  "split_commas [] = [[]]"
| "split_commas (c # cs) =
     (if c = CHR '','' then [] # split_commas cs
      else (case split_commas cs of [] \<Rightarrow> [[c]] | w # ws \<Rightarrow> (c # w) # ws))"

subsection \<open>Documents, results and the schema of the response\<close>

text \<open>The fields of \<open>DocumentContent\<close> (core/document_reader.py) that the extractor reads.\<close>

record DocumentContent =
  doc_path :: string
  doc_filename :: string
  doc_text :: string
  doc_error :: "string option"

definition is_successful :: "DocumentContent \<Rightarrow> bool" where
  "is_successful document = (doc_error document = None \<and> 0 < length (py_strip (doc_text document)))"

record Item =
  item_type :: string
  item_title :: string
  item_description :: string
  item_source_text :: string
  item_source_location :: string
  is_required :: bool
  is_checked :: bool
  deadline_date :: string
  item_confidence :: rat
  tags_csv :: string
  requires_item :: string
  conditional_on_item :: string

record Extraction =
  document_summary :: string
  document_type :: string
  items :: "Item list"

datatype raw_extraction = RawEmpty | RawResponse string | RawExtraction Extraction

record ExtractionResult =
  document_path :: string
  nodes_created :: "string list"
  edges_created :: "string list"
  raw_extraction :: raw_extraction
  result_error :: "string option"

subsection \<open>The collaborators\<close>

text \<open>
  What one call of \<open>client.chat.completions.create\<close> does: it raises an exception, of
  which the handlers tell apart the class (\<open>json.JSONDecodeError\<close>, another \<open>ValueError\<close>,
  anything else) and read the text \<open>str(e)\<close>, or it returns a response whose parts may be
  missing. The reply may depend on the number of the call and on the prompt (path, file
  name and truncated content). \<open>json_loads\<close> is \<open>json.loads\<close> on a response text: the
  message of a \<open>JSONDecodeError\<close>, or the object that conforms to the schema.
  \<open>uuid4 k\<close> and \<open>clock k\<close> are what the \<open>k\<close>-th call of \<open>uuid.uuid4()\<close> and of
  \<open>datetime.now()\<close> return; \<open>md5\<close> is the content hash.
\<close>

datatype exception_class = JSONDecodeError | ValueErrorClass | OtherException

datatype llm_reply =
    Raises exception_class string
  | ResponseNone
  | ChoicesNone
  | ChoicesEmpty
  | MessageNone
  | ContentNone
  | Content string

record collaborators =
  llm :: "nat \<Rightarrow> string \<times> string \<times> string \<Rightarrow> llm_reply"
  json_loads :: "string \<Rightarrow> string + Extraction"
  uuid4 :: "nat \<Rightarrow> string"
  clock :: "nat \<Rightarrow> datetime"
  fromisoformat :: "string \<Rightarrow> datetime option"
  md5 :: "string \<Rightarrow> string"

text \<open>The counters of the calls made so far, the delays slept, and the extractor's own set.\<close>

record effects =
  llm_calls :: nat
  slept :: "nat list"
  uuid_calls :: nat
  clock_reads :: nat
  processed_documents :: "string set"

definition no_effects :: effects where
  "no_effects = \<lparr>llm_calls = 0, slept = [], uuid_calls = 0, clock_reads = 0, processed_documents = {}\<rparr>"

subsection \<open>The retry loop\<close>

datatype attempt_outcome =
    Parsed string Extraction
  | Raised exception_class string "string option"

definition run_attempt :: "(string \<Rightarrow> string + Extraction) \<Rightarrow> llm_reply \<Rightarrow> attempt_outcome" where
  \<comment> \<open>the body of the \<open>try\<close> after the call: the checks of the response, then
      \<open>json.loads\<close>; the third component of \<open>Raised\<close> is the \<open>response_text\<close> assigned
      before the exception\<close>
  "run_attempt loads reply =
     (case reply of
        Raises c msg \<Rightarrow> Raised c msg None
      | ResponseNone \<Rightarrow> Raised ValueErrorClass ''API returned None response'' None
      | ChoicesNone \<Rightarrow> Raised ValueErrorClass ''API response has no choices'' None
      | ChoicesEmpty \<Rightarrow> Raised ValueErrorClass ''API response has empty choices list'' None
      | MessageNone \<Rightarrow> Raised ValueErrorClass ''API response message is None'' None
      | ContentNone \<Rightarrow> Raised ValueErrorClass ''API response content is None'' None
      | Content response_text \<Rightarrow>
          (case loads response_text of
             Inl msg \<Rightarrow> Raised JSONDecodeError msg (Some response_text)
           | Inr extraction \<Rightarrow> Parsed response_text extraction))"

definition transient_markers :: "string list" where
  "transient_markers =
     [''rate limit'', ''timeout'', ''connection'', ''temporary'',
      ''429'', ''500'', ''502'', ''503'', ''504'', ''overloaded'']"

definition retryable :: "string \<Rightarrow> bool" where
  \<comment> \<open>\<open>any(x in str(e).lower() for x in [...])\<close>\<close>
  "retryable msg = list_ex (\<lambda>x. py_in x (py_lower msg)) transient_markers"

datatype loop_exit =
    Break Extraction
  | Return raw_extraction string
  | Exhausted

fun retry_loop ::
  "collaborators \<Rightarrow> string \<times> string \<times> string \<Rightarrow> nat \<Rightarrow> nat list \<Rightarrow> string option \<Rightarrow> effects
     \<Rightarrow> loop_exit \<times> effects" where
  \<comment> \<open>\<open>for attempt in range(max_retries)\<close>; the fifth argument is \<open>response_text\<close>.
      \<open>Exhausted\<close>: the loop ran out without \<open>break\<close> or \<open>return\<close>\<close>
  "retry_loop co prompt max_retries [] response_text fx = (Exhausted, fx)"
| "retry_loop co prompt max_retries (attempt # rest) response_text fx =
     (let fx1 = (if 0 < attempt then fx\<lparr>slept := slept fx @ [2 * 2 ^ (attempt - 1)]\<rparr> else fx);
          reply = llm co (llm_calls fx1) prompt;
          fx2 = fx1\<lparr>llm_calls := llm_calls fx1 + 1\<rparr>
      in case run_attempt (json_loads co) reply of
           Parsed text extraction \<Rightarrow> (Break extraction, fx2)
         | Raised JSONDecodeError msg assigned \<Rightarrow>
             (let response_text' = (case assigned of None \<Rightarrow> response_text | Some t \<Rightarrow> Some t)
              in if attempt = max_retries - 1
                 then (Return (RawResponse (case response_text' of None \<Rightarrow> [] | Some t \<Rightarrow> t))
                         (''Failed to parse LLM response as JSON: '' @ msg), fx2)
                 else retry_loop co prompt max_retries rest response_text' fx2)
         | Raised ValueErrorClass msg assigned \<Rightarrow>
             (if attempt = max_retries - 1
              then (Return RawEmpty (''Empty API response: '' @ msg), fx2)
              else retry_loop co prompt max_retries rest response_text fx2)
         | Raised OtherException msg assigned \<Rightarrow>
             (if retryable msg \<and> attempt < max_retries - 1
              then retry_loop co prompt max_retries rest response_text fx2
              else (Return RawEmpty (''LLM API error: '' @ msg), fx2)))"

subsection \<open>From the response to nodes and edges\<close>

definition map_item_type :: "string \<Rightarrow> NodeType" where
  \<comment> \<open>\<open>mapping.get(type_str.lower(), NodeType.REQUIREMENT)\<close>\<close>
  "map_item_type type_str =
     (case NodeType_of (py_lower type_str) of None \<Rightarrow> REQUIREMENT | Some t \<Rightarrow> t)"

definition parse_tags :: "string \<Rightarrow> string list" where
  \<comment> \<open>\<open>[t.strip() for t in tags_csv.split(",") if t.strip()] if tags_csv else []\<close>\<close>
  "parse_tags csv =
     (if csv = [] then [] else filter (\<lambda>t. t \<noteq> []) (map py_strip (split_commas csv)))"

definition item_node :: "collaborators \<Rightarrow> DocumentContent \<Rightarrow> Extraction \<Rightarrow> Item \<Rightarrow> effects \<Rightarrow> Node" where
  \<comment> \<open>the node that one pass of the first loop leaves in the graph: \<open>create_node\<close> with
      its keyword arguments, then the assignments for a checkbox and for a deadline\<close>
  "item_node co document extraction it fx =
     (let node_type' = map_item_type (item_type it);
          node = (Node_init (uuid4 co (uuid_calls fx)) node_type' (item_title it) (item_description it)
                    (clock co (clock_reads fx)) (clock co (clock_reads fx + 1)))
                   \<lparr>source_document := Some (doc_path document),
                    source_location := Some (item_source_location it),
                    source_text := Some (item_source_text it),
                    confidence := item_confidence it,
                    tags := parse_tags (tags_csv it),
                    metadata := [(''is_required'', VBool (is_required it)),
                                 (''document_type'', VStr (document_type extraction))]\<rparr>;
          node1 = (if node_type' = CHECKBOX
                   then node\<lparr>checkbox_state := Some (is_checked it),
                             status := (if is_checked it then COMPLETED else status node)\<rparr>
                   else node)
      in if deadline_date it \<noteq> [] \<and> py_strip (deadline_date it) \<noteq> [] then
           (case fromisoformat co (deadline_date it) of
              Some d \<Rightarrow> node1\<lparr>deadline := Some d\<rparr>
            | None \<Rightarrow> node1\<lparr>metadata := AList.update ''deadline_raw'' (VStr (deadline_date it)) (metadata node1)\<rparr>)
         else node1)"

fun create_nodes ::
  "collaborators \<Rightarrow> DocumentContent \<Rightarrow> Extraction \<Rightarrow> Item list
     \<Rightarrow> Graph \<times> string list \<times> (string, string) dict \<times> effects
     \<Rightarrow> Graph \<times> string list \<times> (string, string) dict \<times> effects" where
  \<comment> \<open>first loop over the items: graph, \<open>nodes_created\<close>, \<open>title_to_node\<close>\<close>
  "create_nodes co document extraction [] acc = acc"
| "create_nodes co document extraction (it # rest) (g, created, title_to_node, fx) =
     (let node = item_node co document extraction it fx
      in create_nodes co document extraction rest
           (add_node g node, created @ [node_id node],
            AList.update (py_lower (item_title it)) (node_id node) title_to_node,
            fx\<lparr>uuid_calls := uuid_calls fx + 1, clock_reads := clock_reads fx + 2\<rparr>))"

definition resolve_target :: "Graph \<Rightarrow> (string, string) dict \<Rightarrow> string \<Rightarrow> string option" where
  \<comment> \<open>the id that a referenced title resolves to: this batch's map first, then the first
      node that \<open>find_nodes\<close> returns; an empty id counts as none\<close>
  "resolve_target g title_to_node reference =
     (case (case map_of title_to_node (py_lower (py_strip reference)) of
              Some i \<Rightarrow> (if i = [] then None else Some i)
            | None \<Rightarrow> None) of
        Some i \<Rightarrow> Some i
      | None \<Rightarrow>
          (case find_nodes g (py_strip reference) of
             [] \<Rightarrow> None
           | n # _ \<Rightarrow> (if node_id n = [] then None else Some (node_id n))))"

definition connect ::
  "collaborators \<Rightarrow> Graph \<times> string list \<times> effects \<Rightarrow> string \<Rightarrow> string \<Rightarrow> EdgeType \<Rightarrow> string
     \<Rightarrow> Graph \<times> string list \<times> effects" where
  \<comment> \<open>\<open>graph.connect(...)\<close> followed by \<open>edges_created.append(edge.id)\<close>\<close>
  "connect co acc src tgt ty descr =
     (case acc of (g, created, fx) \<Rightarrow>
        (let edge = (Edge_init (uuid4 co (uuid_calls fx)) src tgt ty)\<lparr>edge_description := Some descr\<rparr>
         in (add_edge g edge, created @ [edge_id edge], fx\<lparr>uuid_calls := uuid_calls fx + 1\<rparr>)))"

definition link_item ::
  "collaborators \<Rightarrow> (string, string) dict \<Rightarrow> Item \<Rightarrow> Graph \<times> string list \<times> effects
     \<Rightarrow> Graph \<times> string list \<times> effects" where
  \<comment> \<open>one pass of the second loop\<close>
  "link_item co title_to_node it acc =
     (case map_of title_to_node (py_lower (item_title it)) of
        None \<Rightarrow> acc
      | Some source_id' \<Rightarrow>
          if source_id' = [] then acc
          else
            (let acc1 =
                   (if requires_item it \<noteq> [] \<and> py_strip (requires_item it) \<noteq> [] then
                      (case resolve_target (fst acc) title_to_node (requires_item it) of
                         Some target_id' \<Rightarrow>
                           if target_id' \<noteq> source_id'
                           then connect co acc source_id' target_id' REQUIRES
                                  (item_title it @ '' requires '' @ requires_item it)
                           else acc
                       | None \<Rightarrow> acc)
                    else acc)
             in if conditional_on_item it \<noteq> [] \<and> py_strip (conditional_on_item it) \<noteq> [] then
                  (case resolve_target (fst acc1) title_to_node (conditional_on_item it) of
                     Some target_id' \<Rightarrow>
                       if target_id' \<noteq> source_id'
                       then connect co acc1 source_id' target_id' CONDITIONAL_ON
                              (item_title it @ '' conditional on '' @ conditional_on_item it)
                       else acc1
                   | None \<Rightarrow> acc1)
                else acc1))"

definition truncate_content :: "string \<Rightarrow> nat \<Rightarrow> string" where
  "truncate_content content max_content_length =
     (if max_content_length < length content
      then take max_content_length content @ [CHR 0x0A, CHR 0x0A] @ ''[... content truncated ...]''
      else content)"

definition extract_doc ::
  "collaborators \<Rightarrow> DocumentContent \<Rightarrow> Graph \<Rightarrow> nat \<Rightarrow> effects
     \<Rightarrow> py_error + (Graph \<times> ExtractionResult \<times> effects)" where
  \<comment> \<open>\<open>RequirementExtractor.extract(document, graph, max_content_length)\<close>\<close>
  "extract_doc co document g max_content_length fx =
     (if truthy (doc_error document) \<or> \<not> is_successful document then
        Inr (g, \<lparr>document_path = doc_path document, nodes_created = [], edges_created = [],
                 raw_extraction = RawEmpty,
                 result_error = Some (if truthy (doc_error document) then the (doc_error document)
                                      else ''No content extracted'')\<rparr>, fx)
      else
        (let content = truncate_content (doc_text document) max_content_length;
             prompt = (doc_path document, doc_filename document, content);
             max_retries = 3
         in case retry_loop co prompt max_retries [0 ..< max_retries] None fx of
              (Return raw err, fx1) \<Rightarrow>
                Inr (g, \<lparr>document_path = doc_path document, nodes_created = [], edges_created = [],
                         raw_extraction = raw, result_error = Some err\<rparr>, fx1)
            | (Exhausted, fx1) \<Rightarrow> Inl (UnboundLocalError ''extraction'')
            | (Break extraction, fx1) \<Rightarrow>
                (case create_nodes co document extraction (items extraction) (g, [], [], fx1) of
                   (g1, nodes_created', title_to_node, fx2) \<Rightarrow>
                     (case fold (link_item co title_to_node) (items extraction) (g1, [], fx2) of
                        (g2, edges_created', fx3) \<Rightarrow>
                          Inr (g2,
                               \<lparr>document_path = doc_path document, nodes_created = nodes_created',
                                edges_created = edges_created',
                                raw_extraction = RawExtraction extraction, result_error = None\<rparr>,
                               fx3\<lparr>processed_documents :=
                                      insert (doc_path document) (processed_documents fx3)\<rparr>)))))"

subsection \<open>Incremental extraction\<close>




section \<open>To-do generator (core/todo.py)\<close>

datatype Priority = CRITICAL | HIGH | MEDIUM | LOW

definition CRITICAL_KEYWORDS :: "string list" where
  \<comment> \<open>the two keywords with u-umlaut carry the code point U+00FC\<close>
  "CRITICAL_KEYWORDS =
     [''ausschluss'', ''zwingend'', ''muss'', ''pflicht'', ''erforderlich'',
      ''unbedingt'', ''ausgeschlossen'', ''nicht ber'' @ [CHR 0xFC] @ ''cksichtigt'',
      ''fehlen'', ''mangel'', ''ung'' @ [CHR 0xFC] @ ''ltig'', ''disqualif'']"

definition text_to_check :: "Node \<Rightarrow> string" where
  \<comment> \<open>\<open>((node.title or "") + (node.description or "") + (node.source_text or "")).lower()\<close>\<close>
  "text_to_check node =
     py_lower (title node @ description node @ (case source_text node of None \<Rightarrow> [] | Some s \<Rightarrow> s))"

definition determine_priority :: "Graph \<Rightarrow> Node \<Rightarrow> py_error + Priority" where
  \<comment> \<open>\<open>TodoGenerator._determine_priority\<close>\<close>
  "determine_priority g node =
     (if list_ex (\<lambda>keyword. py_in keyword (text_to_check node)) CRITICAL_KEYWORDS then Inr CRITICAL
      else if map_of (metadata node) ''is_required'' = Some (VBool True) then Inr HIGH
      else if node_type node = SIGNATURE then Inr CRITICAL
      else if node_type node = DEADLINE then Inr CRITICAL
      else if node_type node = DOCUMENT then Inr HIGH
      else
        (case get_dependents g (node_id node) of
           Inl err \<Rightarrow> Inl err
         | Inr dependents \<Rightarrow>
             if 3 \<le> length dependents then Inr HIGH
             else
               (case get_incoming_edges g (node_id node) of
                  Inl err \<Rightarrow> Inl err
                | Inr incoming_edges \<Rightarrow>
                    if list_ex (\<lambda>edge. EdgeType_value (edge_type edge) = ''conditional_on'') incoming_edges
                    then Inr MEDIUM
                    else Inr MEDIUM)))"

section \<open>Example data\<close>

definition t0 :: datetime where
  "t0 = \<lparr>year = 2024, month = 5, day = 17, hour = 9, minute = 30, second = 0, microsecond = 0\<rparr>"

definition example_dangling :: Graph where
  \<comment> \<open>node a requires node b and depends on an id that no node has; an edge of an unknown
      source points at b\<close>
  "example_dangling =
     add_edge
       (add_edge
          (add_edge
             (add_node (add_node empty_graph (Node_init ''a'' REQUIREMENT ''Offer'' ''Signed offer'' t0 t0))
                (Node_init ''b'' DOCUMENT ''Annex 3'' ''Price sheet'' t0 t0))
             (Edge_init ''e1'' ''a'' ''b'' REQUIRES))
          (Edge_init ''e2'' ''a'' ''ghost'' DEPENDS_ON))
       (Edge_init ''e3'' ''phantom'' ''b'' CONDITIONAL_ON)"

definition example_blocked :: Graph where
  \<comment> \<open>node a requires node b, and b is blocked\<close>
  "example_blocked =
     add_edge
       (add_node (add_node empty_graph (Node_init ''a'' REQUIREMENT ''Offer'' ''Signed offer'' t0 t0))
          ((Node_init ''b'' DOCUMENT ''Annex 3'' ''Price sheet'' t0 t0)\<lparr>status := BLOCKED\<rparr>))
       (Edge_init ''e1'' ''a'' ''b'' REQUIRES)"

definition t1 :: datetime where
  "t1 = \<lparr>year = 2024, month = 5, day = 18, hour = 14, minute = 5, second = 9, microsecond = 250000\<rparr>"

definition example_chain :: Graph where
  \<comment> \<open>a requires b; c requires b and x; d depends on a; a, c and d are blocked\<close>
  "example_chain =
     add_edge (add_edge (add_edge (add_edge
       (add_node (add_node (add_node (add_node (add_node empty_graph
          (Node_init ''b'' DOCUMENT ''Annex 3'' ''Price sheet'' t0 t0))
          ((Node_init ''a'' REQUIREMENT ''Offer'' ''Signed offer'' t0 t0)\<lparr>status := BLOCKED\<rparr>))
          ((Node_init ''c'' FIELD ''Total'' ''Total price'' t0 t0)\<lparr>status := BLOCKED\<rparr>))
          ((Node_init ''d'' ATTACHMENT ''Upload'' ''Upload the offer'' t0 t0)\<lparr>status := BLOCKED\<rparr>))
          (Node_init ''x'' CHECKBOX ''Lot 2'' ''Bid for lot 2'' t0 t0))
       (Edge_init ''e1'' ''a'' ''b'' REQUIRES))
       (Edge_init ''e2'' ''c'' ''b'' DEPENDS_ON))
       (Edge_init ''e3'' ''c'' ''x'' REQUIRES))
       (Edge_init ''e4'' ''d'' ''a'' DEPENDS_ON)"

text \<open>
  Float operations without rounding error, for the concrete examples: exact rationals,
  and \<open>round(x, n)\<close> to the nearest multiple of \<open>10^-n\<close>, ties to the even neighbour.
\<close>

definition round_half_even :: "rat \<Rightarrow> int" where
  "round_half_even x =
     (let f = \<lfloor>x\<rfloor>; r = x - of_int f
      in if r < 1 / 2 then f else if 1 / 2 < r then f + 1 else if even f then f else f + 1)"

definition exact_ops :: "rat float_ops" where
  "exact_ops =
     \<lparr>truediv = (\<lambda>a b. of_int a / of_int b),
      mul_int = (\<lambda>x n. x * of_int n),
      round_ndigits = (\<lambda>x n. of_int (round_half_even (x * 10 ^ n)) / 10 ^ n)\<rparr>"

definition item :: "string \<Rightarrow> CompletionStatus \<Rightarrow> Node" where
  "item i s = (Node_init i REQUIREMENT ''Item'' ''An item'' t0 t0)\<lparr>status := s\<rparr>"

definition example_thirds :: Graph where
  "example_thirds =
     fold (\<lambda>n g. add_node g n)
       [item ''n0'' COMPLETED, item ''n1'' NOT_STARTED, item ''n2'' IN_PROGRESS] empty_graph"

definition example_ten :: Graph where
  "example_ten =
     fold (\<lambda>n g. add_node g n)
       [item ''n0'' COMPLETED, item ''n1'' NOT_APPLICABLE, item ''n2'' COMPLETED, item ''n3'' BLOCKED,
        item ''n4'' NOT_STARTED, item ''n5'' COMPLETED, item ''n6'' NOT_APPLICABLE,
        item ''n7'' IN_PROGRESS, item ''n8'' COMPLETED, item ''n9'' NOT_STARTED] empty_graph"

definition example_done :: Graph where
  \<comment> \<open>three completed items each depend on the open item n\<close>
  "example_done =
     fold (\<lambda>e g. add_edge g e)
       [Edge_init ''e1'' ''d1'' ''n'' DEPENDS_ON, Edge_init ''e2'' ''d2'' ''n'' REQUIRES,
        Edge_init ''e3'' ''d3'' ''n'' DEPENDS_ON]
       (fold (\<lambda>n g. add_node g n)
          [item ''n'' NOT_STARTED, item ''d1'' COMPLETED, item ''d2'' COMPLETED, item ''d3'' COMPLETED]
          empty_graph)"

definition example_exclusion :: Node where
  \<comment> \<open>an optional item whose description names an exclusion criterion\<close>
  "example_exclusion =
     (Node_init ''q'' REQUIREMENT ''Reference list'' ''Fehlt die Liste: Ausschlusskriterium'' t0 t0)
       \<lparr>metadata := [(''is_required'', VBool False), (''document_type'', VStr ''form'')]\<rparr>"





text \<open>
  An instance of the two library functions for the examples: naive timestamps in the
  format \<open>YYYY-MM-DDTHH:MM:SS\<close>, followed by \<open>.ffffff\<close> when the microseconds are not 0.
\<close>

definition digit :: "nat \<Rightarrow> char" where
  "digit n = ''0123456789'' ! (n mod 10)"

definition pad2 :: "nat \<Rightarrow> string" where
  \<comment> \<open>the last two decimal digits\<close>
  "pad2 n = [digit (n div 10), digit n]"

definition isoformat_naive :: "datetime \<Rightarrow> string" where
  "isoformat_naive d =
     pad2 (year d div 100) @ pad2 (year d) @ ''-'' @ pad2 (month d) @ ''-'' @ pad2 (day d) @ ''T'' @
     pad2 (hour d) @ '':'' @ pad2 (minute d) @ '':'' @ pad2 (second d) @
     (if microsecond d = 0 then []
      else ''.'' @ pad2 (microsecond d div 10000) @ pad2 (microsecond d div 100) @ pad2 (microsecond d))"

definition digit_value :: "char \<Rightarrow> nat option" where
  \<comment> \<open>the value of a decimal digit, \<open>None\<close> for any other character\<close>
  "digit_value c = map_of (zip ''0123456789'' [0, 1, 2, 3, 4, 5, 6, 7, 8, 9]) c"

fun number_of :: "nat \<Rightarrow> string \<Rightarrow> nat option" where
  "number_of acc [] = Some acc"
| "number_of acc (c # cs) =
     (case digit_value c of None \<Rightarrow> None | Some v \<Rightarrow> number_of (acc * 10 + v) cs)"

definition fromisoformat_naive :: "string \<Rightarrow> datetime option" where
  "fromisoformat_naive s =
     (if (length s = 19 \<or> (length s = 26 \<and> s ! 19 = CHR ''.'')) \<and>
         s ! 4 = CHR ''-'' \<and> s ! 7 = CHR ''-'' \<and> s ! 10 = CHR ''T'' \<and>
         s ! 13 = CHR '':'' \<and> s ! 16 = CHR '':''
      then
        (case (number_of 0 (take 4 s), number_of 0 (take 2 (drop 5 s)),
               number_of 0 (take 2 (drop 8 s)), number_of 0 (take 2 (drop 11 s)),
               number_of 0 (take 2 (drop 14 s)), number_of 0 (take 2 (drop 17 s)),
               number_of 0 (drop 20 s)) of
           (Some y, Some mo, Some d, Some h, Some mi, Some se, Some us) \<Rightarrow>
             Some \<lparr>year = y, month = mo, day = d, hour = h, minute = mi, second = se,
                   microsecond = us\<rparr>
         | _ \<Rightarrow> None)
      else None)"

definition example_deadline :: Graph where
  \<comment> \<open>a completed deadline node with a due date, required by an open item; one edge dangles\<close>
  "example_deadline =
     fold (\<lambda>e g. add_edge g e)
       [Edge_init ''e1'' ''c'' ''due'' REQUIRES, Edge_init ''e2'' ''c'' ''ghost'' REFERENCES]
       (fold (\<lambda>n g. add_node g n)
          [(Node_init ''due'' DEADLINE ''Submission'' ''Offers are due'' t0 t1)
             \<lparr>status := COMPLETED, deadline := Some t1, confidence := 4 / 5\<rparr>,
           item ''c'' NOT_STARTED]
          empty_graph)"

definition example_items :: Extraction where
  \<comment> \<open>a response with a checked checkbox, a deadline that is not an ISO date, and a
      requirement that requires the checkbox and is conditional on an unknown title\<close>
  "example_items =
     \<lparr>document_summary = ''Checklist of the tender'', document_type = ''checklist'',
      items =
        [\<lparr>item_type = ''checkbox'', item_title = ''Lot 1'', item_description = ''Bid for lot 1'',
          item_source_text = ''[x] Los 1'', item_source_location = ''p. 1'', is_required = False,
          is_checked = True, deadline_date = '''', item_confidence = 9 / 10,
          tags_csv = ''lot, form ,'', requires_item = '''', conditional_on_item = ''''\<rparr>,
         \<lparr>item_type = ''Deadline'', item_title = ''Submission'', item_description = ''Offers are due'',
          item_source_text = ''Abgabe bis 18.05.'', item_source_location = ''p. 2'', is_required = True,
          is_checked = False, deadline_date = ''18.05.2024'', item_confidence = 1,
          tags_csv = '''', requires_item = '''', conditional_on_item = ''''\<rparr>,
         \<lparr>item_type = ''requirement'', item_title = ''Price sheet'', item_description = ''Fill in the prices'',
          item_source_text = ''Preisblatt'', item_source_location = ''p. 3'', is_required = True,
          is_checked = False, deadline_date = '''', item_confidence = 1,
          tags_csv = ''prices'', requires_item = '' lot 1 '', conditional_on_item = ''Framework''\<rparr>]\<rparr>"

definition stub :: "llm_reply list \<Rightarrow> collaborators" where
  \<comment> \<open>an LLM stub that answers the \<open>k\<close>-th call with the \<open>k\<close>-th reply of a list, a parser
      that knows one response text, ids u00, u01, ..., a clock that stands still, and the
      text itself as its hash\<close>
  "stub replies =
     \<lparr>llm = (\<lambda>k prompt. if k < length replies then replies ! k else ResponseNone),
      json_loads = (\<lambda>s. if s = ''{items}'' then Inr example_items
                         else Inl ''Expecting value: line 1 column 1 (char 0)''),
      uuid4 = (\<lambda>k. ''u'' @ pad2 k),
      clock = (\<lambda>k. t0),
      fromisoformat = fromisoformat_naive,
      md5 = (\<lambda>s. s)\<rparr>"

definition example_document :: DocumentContent where
  "example_document =
     \<lparr>doc_path = ''docs/checklist.pdf'', doc_filename = ''checklist.pdf'',
      doc_text = ''Los 1 ... Preisblatt'', doc_error = None\<rparr>"


section \<open>Representation invariants of a graph built through its methods\<close>

definition index_closed :: "Graph \<Rightarrow> bool" where
  \<comment> \<open>both adjacency indices list ids of stored edges only\<close>
  "index_closed g =
     ((\<forall>(k, l) \<in> set (adjacency g). \<forall>eid \<in> set l. map_of (edges g) eid \<noteq> None) \<and>
      (\<forall>(k, l) \<in> set (reverse_adjacency g). \<forall>eid \<in> set l. map_of (edges g) eid \<noteq> None))"

definition nodes_keyed :: "Graph \<Rightarrow> bool" where
  \<comment> \<open>every node is stored under its own id\<close>
  "nodes_keyed g = (\<forall>(k, n) \<in> set (nodes g). node_id n = k)"

text \<open>
  Two notions for the proof about completion propagation: a node that the propagation
  lifts (blocked, and every dependency completed), and the graphs that differ from \<open>g1\<close>
  only in that the liftable nodes among \<open>D\<close> are \<open>not_started\<close> with a fresh timestamp.
\<close>

definition unblockable :: "Graph \<Rightarrow> string \<Rightarrow> bool" where
  "unblockable g k =
     (\<exists>d deps. get_node g k = Some d \<and> status d = BLOCKED \<and> get_dependencies g k = Inr deps \<and>
        list_all (\<lambda>dep. status dep = COMPLETED) deps)"

definition unblocked_from :: "Graph \<Rightarrow> string set \<Rightarrow> Graph \<Rightarrow> bool" where
  "unblocked_from g1 D g =
     (edges g = edges g1 \<and> adjacency g = adjacency g1 \<and>
      reverse_adjacency g = reverse_adjacency g1 \<and> map fst (nodes g) = map fst (nodes g1) \<and>
      (\<forall>j n1. get_node g1 j = Some n1 \<longrightarrow>
         (\<exists>t. get_node g j =
            Some (if j \<in> D \<and> unblockable g1 j then n1\<lparr>status := NOT_STARTED, updated_at := t\<rparr> else n1))))"

definition edges_keyed :: "Graph \<Rightarrow> bool" where
  \<comment> \<open>every edge is stored under its own id\<close>
  "edges_keyed g = (\<forall>(k, e) \<in> set (edges g). edge_id e = k)"



definition dicts_distinct :: "Graph \<Rightarrow> bool" where
  \<comment> \<open>a dictionary holds a key once: the node and edge dictionaries and every node's
      \<open>metadata\<close>\<close>
  "dicts_distinct g =
     (distinct (map fst (nodes g)) \<and> distinct (map fst (edges g)) \<and>
      (\<forall>(k, n) \<in> set (nodes g). distinct (map fst (metadata n))))"


definition iso_inverts :: "(datetime \<Rightarrow> string) \<Rightarrow> (string \<Rightarrow> datetime option) \<Rightarrow> datetime \<Rightarrow> bool" where
  \<comment> \<open>what the library promises of a timestamp: its ISO text is not empty and parses back\<close>
  "iso_inverts isoformat fromiso t = (isoformat t \<noteq> [] \<and> fromiso (isoformat t) = Some t)"

definition timestamps_roundtrip :: "(datetime \<Rightarrow> string) \<Rightarrow> (string \<Rightarrow> datetime option) \<Rightarrow> Graph \<Rightarrow> bool" where
  "timestamps_roundtrip isoformat fromiso g =
     (\<forall>(k, n) \<in> set (nodes g).
        iso_inverts isoformat fromiso (created_at n) \<and> iso_inverts isoformat fromiso (updated_at n) \<and>
        (\<forall>d \<in> set_option (deadline n). iso_inverts isoformat fromiso d))"

definition retried :: "collaborators \<Rightarrow> llm_reply \<Rightarrow> bool" where
  \<comment> \<open>an attempt that fails in a way the loop retries when it is not the last attempt\<close>
  "retried co reply =
     (case run_attempt (json_loads co) reply of
        Parsed _ _ \<Rightarrow> False
      | Raised OtherException msg _ \<Rightarrow> retryable msg
      | Raised _ _ _ \<Rightarrow> True)"



section \<open>Lookups through the indices\<close>

lemma lookup_edges_total:
  "(\<forall>eid \<in> set eids. map_of es eid \<noteq> None) \<Longrightarrow>
     lookup_edges es eids = Inr (map (\<lambda>eid. the (map_of es eid)) eids)"
  by (induction eids) auto

lemma index_get_in:
  assumes "eid \<in> set (index_get index k)"
  shows "\<exists>l. (k, l) \<in> set index \<and> eid \<in> set l"
proof (cases "map_of index k")
  case None
  with assms show ?thesis by (simp add: index_get_def)
next
  case (Some l)
  with assms show ?thesis by (auto simp: index_get_def dest: map_of_SomeD)
qed

lemma outgoing_total:
  "index_closed g \<Longrightarrow>
     get_outgoing_edges g nid =
       Inr (map (\<lambda>eid. the (map_of (edges g) eid)) (index_get (adjacency g) nid))"
  unfolding get_outgoing_edges_def index_closed_def
  by (rule lookup_edges_total) (blast dest: index_get_in)

lemma incoming_total:
  "index_closed g \<Longrightarrow>
     get_incoming_edges g nid =
       Inr (map (\<lambda>eid. the (map_of (edges g) eid)) (index_get (reverse_adjacency g) nid))"
  unfolding get_incoming_edges_def index_closed_def
  by (rule lookup_edges_total) (blast dest: index_get_in)

lemma dependency_targets_present:
  "n \<in> set (dependency_targets g es) \<Longrightarrow> \<exists>e \<in> set es. get_node g (target_id e) = Some n"
  by (induction es) (auto split: if_splits option.splits)

lemma dependent_sources_present:
  "n \<in> set (dependent_sources g es) \<Longrightarrow> \<exists>e \<in> set es. get_node g (source_id e) = Some n"
  by (induction es) (auto split: if_splits option.splits)

section \<open>Traversal skips dangling edges\<close>

text \<open>
  Claim C3. In a graph whose adjacency indices list stored edges only (every graph the
  methods build, dangling edges included), \<open>get_dependencies\<close> and \<open>get_dependents\<close>
  return normally for every id. The result is, in order, the far endpoint of each listed
  dependency edge whose far endpoint is a stored node: an edge whose target (for
  dependencies) or source (for dependents) is missing contributes nothing. Every returned
  node is an entry of the node dictionary.
\<close>

theorem dependencies_dependents_total:
  assumes "index_closed g"
  shows "\<exists>outgoing incoming.
           get_outgoing_edges g nid = Inr outgoing \<and>
           get_incoming_edges g nid = Inr incoming \<and>
           get_dependencies g nid =
             Inr (map (\<lambda>e. the (get_node g (target_id e)))
                    (filter (\<lambda>e. is_dependency_type (edge_type e) \<and> get_node g (target_id e) \<noteq> None)
                       outgoing)) \<and>
           get_dependents g nid =
             Inr (map (\<lambda>e. the (get_node g (source_id e)))
                    (filter (\<lambda>e. is_dependency_type (edge_type e) \<and> get_node g (source_id e) \<noteq> None)
                       incoming)) \<and>
           (\<forall>deps. get_dependencies g nid = Inr deps \<longrightarrow>
              (\<forall>n \<in> set deps. \<exists>k. get_node g k = Some n \<and> (k, n) \<in> set (nodes g))) \<and>
           (\<forall>deps. get_dependents g nid = Inr deps \<longrightarrow>
              (\<forall>n \<in> set deps. \<exists>k. get_node g k = Some n \<and> (k, n) \<in> set (nodes g)))"
proof -
  have t: "dependency_targets g es = map (\<lambda>e. the (get_node g (target_id e)))
             (filter (\<lambda>e. is_dependency_type (edge_type e) \<and> get_node g (target_id e) \<noteq> None) es)" for es
    by (induction es) auto
  have s: "dependent_sources g es = map (\<lambda>e. the (get_node g (source_id e)))
             (filter (\<lambda>e. is_dependency_type (edge_type e) \<and> get_node g (source_id e) \<noteq> None) es)" for es
    by (induction es) auto
  obtain outgoing where o: "get_outgoing_edges g nid = Inr outgoing"
    using outgoing_total [OF assms] by blast
  obtain incoming where i: "get_incoming_edges g nid = Inr incoming"
    using incoming_total [OF assms] by blast
  have p1: "\<exists>k. get_node g k = Some n \<and> (k, n) \<in> set (nodes g)"
    if "n \<in> set (dependency_targets g outgoing)" for n
    using dependency_targets_present [OF that] by (auto simp: get_node_def dest: map_of_SomeD)
  have p2: "\<exists>k. get_node g k = Some n \<and> (k, n) \<in> set (nodes g)"
    if "n \<in> set (dependent_sources g incoming)" for n
    using dependent_sources_present [OF that] by (auto simp: get_node_def dest: map_of_SomeD)
  show ?thesis
    using o i p1 p2 by (auto simp: get_dependencies_def get_dependents_def t s)
qed

theorem dependencies_dependents_total_witness:
  "index_closed example_dangling \<and>
   get_dependencies example_dangling ''a'' = Inr [Node_init ''b'' DOCUMENT ''Annex 3'' ''Price sheet'' t0 t0] \<and>
   get_dependents example_dangling ''b'' = Inr [Node_init ''a'' REQUIREMENT ''Offer'' ''Signed offer'' t0 t0] \<and>
   get_dependents example_dangling ''ghost'' = Inr [Node_init ''a'' REQUIREMENT ''Offer'' ''Signed offer'' t0 t0]"
proof -
  have h: "index_closed example_dangling"
    by (simp add: index_closed_def example_dangling_def add_edge_def add_node_def empty_graph_def
        index_append_def init_index_def index_get_def Edge_init_def Node_init_def)
  show ?thesis
    using h dependencies_dependents_total [OF h, of "''a''"]
    by (simp add: example_dangling_def add_edge_def add_node_def empty_graph_def
        index_append_def init_index_def index_get_def Edge_init_def Node_init_def
        get_dependencies_def get_dependents_def get_outgoing_edges_def get_incoming_edges_def
        is_dependency_type_def get_node_def)
qed

section \<open>Actionable items\<close>

lemma dependencies_total:
  "index_closed g \<Longrightarrow> \<exists>deps. get_dependencies g nid = Inr deps"
  by (simp add: get_dependencies_def outgoing_total)

lemma dependents_total:
  "index_closed g \<Longrightarrow> \<exists>deps. get_dependents g nid = Inr deps"
  by (simp add: get_dependents_def incoming_total)

lemma actionable_loop_filter:
  assumes "index_closed g"
  shows "actionable_loop g ns =
           Inr (filter (\<lambda>n. (status n = NOT_STARTED \<or> status n = IN_PROGRESS) \<and>
                  (\<exists>deps. get_dependencies g (node_id n) = Inr deps \<and>
                     (\<forall>d \<in> set deps. status d = COMPLETED \<or> status d = NOT_APPLICABLE))) ns)"
proof (induction ns)
  case Nil
  show ?case by simp
next
  case (Cons n ns)
  obtain deps where d: "get_dependencies g (node_id n) = Inr deps"
    using dependencies_total [OF assms] by blast
  show ?case using Cons d by (auto simp: list_all_iff)
qed

lemmas build_defs = add_edge_def add_node_def empty_graph_def
  index_append_def init_index_def index_get_def Edge_init_def Node_init_def

lemmas traversal_defs = get_dependencies_def get_dependents_def get_outgoing_edges_def
  get_incoming_edges_def is_dependency_type_def get_node_def

text \<open>
  Claim C2. \<open>get_actionable_items\<close> returns, in dictionary order, exactly the nodes whose
  status is \<open>not_started\<close> or \<open>in_progress\<close> and whose dependencies (as
  \<open>get_dependencies\<close> returns them) all have status \<open>completed\<close> or \<open>not_applicable\<close>.
  So a node with a dependency in status \<open>blocked\<close> is not returned, and a node in one of
  the two open statuses whose dependencies are all completed or not applicable is returned.
\<close>

theorem actionable_items_exact:
  assumes "index_closed g"
  shows "\<exists>items. get_actionable_items g = Inr items \<and>
           items = filter (\<lambda>n. (status n = NOT_STARTED \<or> status n = IN_PROGRESS) \<and>
                      (\<exists>deps. get_dependencies g (node_id n) = Inr deps \<and>
                         (\<forall>d \<in> set deps. status d = COMPLETED \<or> status d = NOT_APPLICABLE)))
                     (map snd (nodes g)) \<and>
           (\<forall>n deps d. n \<in> snd ` set (nodes g) \<and> get_dependencies g (node_id n) = Inr deps \<and>
                d \<in> set deps \<and> status d = BLOCKED \<longrightarrow> n \<notin> set items) \<and>
           (\<forall>n deps. n \<in> snd ` set (nodes g) \<and> (status n = NOT_STARTED \<or> status n = IN_PROGRESS) \<and>
                get_dependencies g (node_id n) = Inr deps \<and>
                (\<forall>d \<in> set deps. status d = COMPLETED \<or> status d = NOT_APPLICABLE) \<longrightarrow> n \<in> set items)"
proof -
  let ?P = "\<lambda>n. (status n = NOT_STARTED \<or> status n = IN_PROGRESS) \<and>
                      (\<exists>deps. get_dependencies g (node_id n) = Inr deps \<and>
                         (\<forall>d \<in> set deps. status d = COMPLETED \<or> status d = NOT_APPLICABLE))"
  have 1: "get_actionable_items g = Inr (filter ?P (map snd (nodes g)))"
    unfolding get_actionable_items_def by (rule actionable_loop_filter [OF assms])
  have 2: "n \<notin> set (filter ?P (map snd (nodes g)))"
    if "get_dependencies g (node_id n) = Inr deps" "d \<in> set deps" "status d = BLOCKED" for n deps d
  proof -
    have "\<not> (\<forall>d \<in> set deps. status d = COMPLETED \<or> status d = NOT_APPLICABLE)"
      using that(2,3) by force
    then show ?thesis using that(1) by simp
  qed
  have 3: "n \<in> set (filter ?P (map snd (nodes g)))"
    if "n \<in> snd ` set (nodes g)" "status n = NOT_STARTED \<or> status n = IN_PROGRESS"
       "get_dependencies g (node_id n) = Inr deps"
       "\<forall>d \<in> set deps. status d = COMPLETED \<or> status d = NOT_APPLICABLE" for n deps
    using that by auto
  show ?thesis using 1 2 3 by blast
qed

text \<open>
  The scenario of the specification: while b is blocked, a (which requires b) is not
  actionable; once b is set to \<open>not_applicable\<close>, a is.
\<close>

theorem actionable_items_exact_witness:
  "index_closed example_blocked \<and>
   get_actionable_items example_blocked = Inr [] \<and>
   (\<exists>g' b'. update_status (\<lambda>k. t0) example_blocked ''b'' NOT_APPLICABLE = Inr (g', Some b') \<and>
       status b' = NOT_APPLICABLE \<and> index_closed g' \<and>
       get_actionable_items g' = Inr [Node_init ''a'' REQUIREMENT ''Offer'' ''Signed offer'' t0 t0])"
proof -
  have h: "index_closed example_blocked"
    by (simp add: index_closed_def example_blocked_def build_defs)
  show ?thesis
    using h actionable_items_exact [OF h]
    by (simp add: example_blocked_def build_defs traversal_defs get_actionable_items_def
        update_status_def index_closed_def)
qed

section \<open>Completion propagation\<close>

lemma map_fst_map_entry: "map fst (AList.map_entry k f xs) = map fst xs"
  by (induction xs) auto

lemma map_of_None_keys: "map fst xs = map fst ys \<Longrightarrow> map_of xs k = None \<longleftrightarrow> map_of ys k = None"
  by (metis map_of_eq_None_iff set_map)

lemma nodes_keyedD: "nodes_keyed g \<Longrightarrow> get_node g k = Some n \<Longrightarrow> node_id n = k"
  by (auto simp: nodes_keyed_def get_node_def dest: map_of_SomeD)

lemma unblocked_from_completed:
  assumes "unblocked_from g1 D g"
  shows "list_all (\<lambda>dep. status dep = COMPLETED) (dependency_targets g es) =
         list_all (\<lambda>dep. status dep = COMPLETED) (dependency_targets g1 es)"
proof (induction es)
  case Nil
  show ?case by simp
next
  case (Cons e es)
  show ?case
  proof (cases "get_node g1 (target_id e)")
    case None
    then have "get_node g (target_id e) = None"
      using assms map_of_None_keys [of "nodes g" "nodes g1"]
      by (simp add: unblocked_from_def get_node_def)
    with None Cons show ?thesis by simp
  next
    case (Some n1)
    then obtain t where
      n: "get_node g (target_id e) =
            Some (if target_id e \<in> D \<and> unblockable g1 (target_id e)
                  then n1\<lparr>status := NOT_STARTED, updated_at := t\<rparr> else n1)"
      using assms unfolding unblocked_from_def by blast
    have b: "unblockable g1 (target_id e) \<Longrightarrow> status n1 = BLOCKED"
      using Some by (auto simp: unblockable_def)
    show ?thesis using Some n b Cons by auto
  qed
qed

lemma unblocked_from_index_closed:
  "unblocked_from g1 D g \<Longrightarrow> index_closed g1 \<Longrightarrow> index_closed g"
  by (simp add: unblocked_from_def index_closed_def)

lemma unblocked_from_dependencies:
  assumes "unblocked_from g1 D g" "index_closed g1"
  shows "\<exists>deps deps1. get_dependencies g j = Inr deps \<and> get_dependencies g1 j = Inr deps1 \<and>
           list_all (\<lambda>dep. status dep = COMPLETED) deps = list_all (\<lambda>dep. status dep = COMPLETED) deps1"
proof -
  have e: "get_outgoing_edges g j = get_outgoing_edges g1 j"
    using assms(1) by (simp add: get_outgoing_edges_def unblocked_from_def)
  obtain es where es: "get_outgoing_edges g1 j = Inr es"
    using outgoing_total [OF assms(2)] by blast
  show ?thesis
    using e es unblocked_from_completed [OF assms(1), of es] by (simp add: get_dependencies_def)
qed

lemma unblocked_fromD:
  "unblocked_from g1 D g \<Longrightarrow> get_node g1 j = Some n1 \<Longrightarrow>
     \<exists>t. get_node g j =
        Some (if j \<in> D \<and> unblockable g1 j then n1\<lparr>status := NOT_STARTED, updated_at := t\<rparr> else n1)"
  unfolding unblocked_from_def by blast

lemma unblocked_from_extend:
  assumes "unblocked_from g1 D g" "get_node g1 j = None \<or> j \<in> D \<or> \<not> unblockable g1 j"
  shows "unblocked_from g1 (D \<union> {j}) g"
  unfolding unblocked_from_def
proof (intro conjI allI impI)
  fix i n1 assume m: "get_node g1 i = Some n1"
  then obtain t where
    g: "get_node g i =
          Some (if i \<in> D \<and> unblockable g1 i then n1\<lparr>status := NOT_STARTED, updated_at := t\<rparr> else n1)"
    using assms(1) unfolding unblocked_from_def by blast
  have "(i \<in> D \<union> {j} \<and> unblockable g1 i) = (i \<in> D \<and> unblockable g1 i)"
    using assms(2) m by auto
  with g show "\<exists>t. get_node g i =
          Some (if i \<in> D \<union> {j} \<and> unblockable g1 i then n1\<lparr>status := NOT_STARTED, updated_at := t\<rparr> else n1)"
    by auto
qed (use assms(1) in \<open>simp_all add: unblocked_from_def\<close>)

lemma propagate_loop_unblocks:
  assumes "index_closed g1" "nodes_keyed g1"
  shows "unblocked_from g1 D g \<Longrightarrow>
           \<exists>g'. propagate_loop now k g ds = Inr g' \<and> unblocked_from g1 (D \<union> node_id ` set ds) g'"
proof (induction ds arbitrary: g k D)
  case Nil
  then show ?case by simp
next
  case (Cons d ds)
  let ?j = "node_id d"
  have keys: "map fst (nodes g) = map fst (nodes g1)"
    using Cons.prems by (simp add: unblocked_from_def)
  show ?case
  proof (cases "get_node g1 ?j")
    case None
    then have gn: "get_node g ?j = None"
      using keys map_of_None_keys [of "nodes g" "nodes g1"] by (simp add: get_node_def)
    have "unblocked_from g1 (D \<union> {?j}) g"
      using Cons.prems None by (intro unblocked_from_extend) auto
    from Cons.IH [OF this, of k] gn show ?thesis by (simp add: Un_assoc)
  next
    case (Some n1)
    then obtain t where
      n: "get_node g ?j =
            Some (if ?j \<in> D \<and> unblockable g1 ?j then n1\<lparr>status := NOT_STARTED, updated_at := t\<rparr> else n1)"
      using Cons.prems unfolding unblocked_from_def by blast
    have id1: "node_id n1 = ?j" using nodes_keyedD [OF assms(2) Some] .
    obtain deps deps1 where
      dp: "get_dependencies g ?j = Inr deps" "get_dependencies g1 ?j = Inr deps1"
          "list_all (\<lambda>dep. status dep = COMPLETED) deps = list_all (\<lambda>dep. status dep = COMPLETED) deps1"
      using unblocked_from_dependencies [OF Cons.prems assms(1)] by blast
    show ?thesis
    proof (cases "?j \<in> D \<and> unblockable g1 ?j")
      case True
      then have "unblocked_from g1 (D \<union> {?j}) g"
        using Cons.prems by (intro unblocked_from_extend) auto
      from Cons.IH [OF this, of k] n True show ?thesis by (simp add: Un_assoc)
    next
      case False
      then have n': "get_node g ?j = Some n1" using n by auto
      show ?thesis
      proof (cases "status n1 = BLOCKED \<and> list_all (\<lambda>dep. status dep = COMPLETED) deps1")
        case True
        then have ub: "unblockable g1 ?j"
          using Some dp by (auto simp: unblockable_def)
        let ?g2 = "g\<lparr>nodes := AList.map_entry ?j (\<lambda>n. n\<lparr>status := NOT_STARTED, updated_at := now k\<rparr>) (nodes g)\<rparr>"
        have "unblocked_from g1 (D \<union> {?j}) ?g2"
          unfolding unblocked_from_def
        proof (intro conjI allI impI)
          fix j m1 assume m: "get_node g1 j = Some m1"
          then obtain t' where
            g: "get_node g j =
                  Some (if j \<in> D \<and> unblockable g1 j then m1\<lparr>status := NOT_STARTED, updated_at := t'\<rparr> else m1)"
            using Cons.prems unfolding unblocked_from_def by blast
          show "\<exists>t. get_node ?g2 j =
                  Some (if j \<in> D \<union> {?j} \<and> unblockable g1 j then m1\<lparr>status := NOT_STARTED, updated_at := t\<rparr> else m1)"
          proof (cases "j = ?j")
            case True
            then show ?thesis using n' m Some ub
              by (auto simp: get_node_def AList.map_of_map_entry)
          next
            case False
            then show ?thesis using g
              by (auto simp: get_node_def AList.map_of_map_entry)
          qed
        qed (use Cons.prems in \<open>simp_all add: unblocked_from_def map_fst_map_entry\<close>)
        from Cons.IH [OF this, of "Suc k"] n' True dp id1 show ?thesis by (simp add: Un_assoc)
      next
        case F2: False
        then have "\<not> unblockable g1 ?j"
          using Some dp by (auto simp: unblockable_def)
        then have "unblocked_from g1 (D \<union> {?j}) g"
          using Cons.prems by (intro unblocked_from_extend) auto
        from Cons.IH [OF this, of k] n' F2 dp id1 show ?thesis by (auto simp add: Un_assoc)
      qed
    qed
  qed
qed


lemma set_map_entry:
  "(k, n) \<in> set (AList.map_entry j f xs) \<Longrightarrow>
     (k, n) \<in> set xs \<or> (k = j \<and> (\<exists>n0. (j, n0) \<in> set xs \<and> n = f n0))"
  by (induction xs) (auto split: if_splits)

lemma nodes_keyed_map_entry:
  assumes "nodes_keyed g" "\<And>n. node_id (f n) = node_id n"
  shows "nodes_keyed (g\<lparr>nodes := AList.map_entry j f (nodes g)\<rparr>)"
  using assms unfolding nodes_keyed_def by (auto dest!: set_map_entry)

lemma dependent_sources_ids:
  assumes "nodes_keyed g"
  shows "map node_id (dependent_sources g es) =
           map source_id (filter (\<lambda>e. is_dependency_type (edge_type e) \<and> get_node g (source_id e) \<noteq> None) es)"
  by (induction es) (auto dest: nodes_keyedD [OF assms])

lemma get_node_map_entry:
  "get_node (g\<lparr>nodes := AList.map_entry j f (nodes g)\<rparr>) k =
     (if k = j then map_option f (get_node g j) else get_node g k)"
  by (auto simp: get_node_def AList.map_of_map_entry split: option.splits)

lemma completed_targets:
  assumes "nodes_keyed g" "get_node g nid = Some node"
  shows "list_all (\<lambda>dep. status dep = COMPLETED)
           (dependency_targets (g\<lparr>nodes := AList.map_entry nid (\<lambda>n. n\<lparr>status := COMPLETED, updated_at := t\<rparr>) (nodes g)\<rparr>) es) =
         list_all (\<lambda>dep. node_id dep = nid \<or> status dep = COMPLETED) (dependency_targets g es)"
proof (induction es)
  case Nil
  show ?case by simp
next
  case (Cons e es)
  show ?case
  proof (cases "target_id e = nid")
    case True
    then show ?thesis using Cons assms nodes_keyedD [OF assms]
      by (simp add: get_node_map_entry)
  next
    case False
    then show ?thesis using Cons nodes_keyedD [OF assms(1), of "target_id e"]
      by (auto simp: get_node_map_entry split: option.splits)
  qed
qed

text \<open>
  Claim C1. For a stored node \<open>nid\<close>, \<open>update_status nid COMPLETED\<close> returns normally,
  sets that node's status to \<open>completed\<close> (and its \<open>updated_at\<close>), and leaves edges,
  indices and the key order alone. Every other node \<open>k\<close> is unchanged, except that it
  becomes \<open>not_started\<close> (with a fresh \<open>updated_at\<close>) when it is a direct dependent of
  \<open>nid\<close>, is blocked, and each of its direct dependencies is \<open>nid\<close> or completed. So no
  other node becomes completed, and a status that changes goes from \<open>blocked\<close> to
  \<open>not_started\<close>. "Currently blocked" is read after the status of \<open>nid\<close> is set.
\<close>

theorem update_status_completed:
  assumes "index_closed g" "nodes_keyed g" "get_node g nid = Some node"
  shows "\<exists>g' dependents.
     update_status now g nid COMPLETED = Inr (g', Some (node\<lparr>status := COMPLETED, updated_at := now 0\<rparr>)) \<and>
     get_node g' nid = Some (node\<lparr>status := COMPLETED, updated_at := now 0\<rparr>) \<and>
     get_dependents g nid = Inr dependents \<and>
     edges g' = edges g \<and> adjacency g' = adjacency g \<and> reverse_adjacency g' = reverse_adjacency g \<and>
     map fst (nodes g') = map fst (nodes g) \<and>
     (\<forall>k d. k \<noteq> nid \<and> get_node g k = Some d \<longrightarrow>
        (\<exists>t. get_node g' k =
           Some (if k \<in> node_id ` set dependents \<and> status d = BLOCKED \<and>
                    (\<exists>deps. get_dependencies g k = Inr deps \<and>
                       (\<forall>dep \<in> set deps. node_id dep = nid \<or> status dep = COMPLETED))
                 then d\<lparr>status := NOT_STARTED, updated_at := t\<rparr> else d))) \<and>
     (\<forall>k d d'. k \<noteq> nid \<and> get_node g k = Some d \<and> get_node g' k = Some d' \<and> status d' = COMPLETED \<longrightarrow>
        status d = COMPLETED) \<and>
     (\<forall>k d d'. k \<noteq> nid \<and> get_node g k = Some d \<and> get_node g' k = Some d' \<and> status d' \<noteq> status d \<longrightarrow>
        status d = BLOCKED \<and> status d' = NOT_STARTED \<and> k \<in> node_id ` set dependents)"
proof -
  let ?f = "\<lambda>n::Node. n\<lparr>status := COMPLETED, updated_at := now 0\<rparr>"
  let ?g1 = "g\<lparr>nodes := AList.map_entry nid ?f (nodes g)\<rparr>"
  have ic1: "index_closed ?g1" using assms(1) by (simp add: index_closed_def)
  have nk1: "nodes_keyed ?g1" by (rule nodes_keyed_map_entry [OF assms(2)]) simp
  have u0: "unblocked_from ?g1 {} ?g1" by (simp add: unblocked_from_def)
  obtain ds where ds: "get_dependents g nid = Inr ds"
    using dependents_total [OF assms(1)] by blast
  obtain ds1 where ds1: "get_dependents ?g1 nid = Inr ds1"
    using dependents_total [OF ic1] by blast
  obtain incoming where inc: "get_incoming_edges g nid = Inr incoming"
    using incoming_total [OF assms(1)] by blast
  have inc1: "get_incoming_edges ?g1 nid = Inr incoming"
    using inc by (simp add: get_incoming_edges_def)
  have pres: "(\<exists>y. get_node ?g1 k = Some y) = (\<exists>y. get_node g k = Some y)" for k
    by (auto simp: get_node_map_entry)
  have "map node_id ds1 = map node_id ds"
    using ds ds1 inc inc1 dependent_sources_ids [OF assms(2), of incoming]
      dependent_sources_ids [OF nk1, of incoming]
    by (simp add: get_dependents_def pres)
  then have ids: "node_id ` set ds1 = node_id ` set ds"
    by (metis set_map)
  obtain g' where g': "propagate_loop now 1 ?g1 ds1 = Inr g'"
      and u: "unblocked_from ?g1 (node_id ` set ds1) g'"
    using propagate_loop_unblocks [OF ic1 nk1 u0, of now 1 ds1] by auto
  have self: "\<not> unblockable ?g1 nid"
    using assms(3) by (auto simp: unblockable_def get_node_map_entry)
  have "get_node ?g1 nid = Some (?f node)"
    using assms(3) by (simp add: get_node_map_entry)
  from unblocked_fromD [OF u this] self
  have gn: "get_node g' nid = Some (?f node)" by auto
  have run: "update_status now g nid COMPLETED = Inr (g', Some (?f node))"
    using assms(3) ds1 g' gn by (simp add: update_status_def propagate_completion_def)
  have ub: "unblockable ?g1 k \<longleftrightarrow>
              status d = BLOCKED \<and> (\<exists>deps. get_dependencies g k = Inr deps \<and>
                 (\<forall>dep \<in> set deps. node_id dep = nid \<or> status dep = COMPLETED))"
    if "k \<noteq> nid" "get_node g k = Some d" for k d
  proof -
    obtain es where es: "get_outgoing_edges g k = Inr es"
      using outgoing_total [OF assms(1)] by blast
    then have es1: "get_outgoing_edges ?g1 k = Inr es"
      by (simp add: get_outgoing_edges_def)
    show ?thesis
      using that es es1 completed_targets [OF assms(2,3), of "now 0" es]
      by (auto simp: unblockable_def get_node_map_entry get_dependencies_def list_all_iff)
  qed
  have main: "\<exists>t. get_node g' k =
           Some (if k \<in> node_id ` set ds \<and> status d = BLOCKED \<and>
                    (\<exists>deps. get_dependencies g k = Inr deps \<and>
                       (\<forall>dep \<in> set deps. node_id dep = nid \<or> status dep = COMPLETED))
                 then d\<lparr>status := NOT_STARTED, updated_at := t\<rparr> else d)"
    if "k \<noteq> nid" "get_node g k = Some d" for k d
  proof -
    have "get_node ?g1 k = Some d" using that by (simp add: get_node_map_entry)
    from unblocked_fromD [OF u this] obtain t where "get_node g' k =
        Some (if k \<in> node_id ` set ds1 \<and> unblockable ?g1 k then d\<lparr>status := NOT_STARTED, updated_at := t\<rparr> else d)"
      by blast
    then show ?thesis using ub [OF that] ids by auto
  qed
  have frame: "edges g' = edges g \<and> adjacency g' = adjacency g \<and> reverse_adjacency g' = reverse_adjacency g \<and>
     map fst (nodes g') = map fst (nodes g)"
    using u by (simp add: unblocked_from_def map_fst_map_entry)
  have c1: "status d = COMPLETED"
    if "k \<noteq> nid" "get_node g k = Some d" "get_node g' k = Some d'" "status d' = COMPLETED" for k d d'
    using main [OF that(1,2)] that(3,4) by (auto split: if_splits)
  have c2: "status d = BLOCKED \<and> status d' = NOT_STARTED \<and> k \<in> node_id ` set ds"
    if "k \<noteq> nid" "get_node g k = Some d" "get_node g' k = Some d'" "status d' \<noteq> status d" for k d d'
    using main [OF that(1,2)] that(3,4) by (auto split: if_splits)
  show ?thesis
    using run gn ds frame main c1 c2 by blast
qed

theorem update_status_completed_witness:
  "index_closed example_chain \<and> nodes_keyed example_chain \<and>
   get_node example_chain ''b'' = Some (Node_init ''b'' DOCUMENT ''Annex 3'' ''Price sheet'' t0 t0) \<and>
   (\<exists>g'. update_status (\<lambda>k. t1) example_chain ''b'' COMPLETED =
            Inr (g', Some ((Node_init ''b'' DOCUMENT ''Annex 3'' ''Price sheet'' t0 t0)
                             \<lparr>status := COMPLETED, updated_at := t1\<rparr>)) \<and>
          edges g' = edges example_chain \<and>
          map (\<lambda>(k, n). (k, status n)) (nodes g') =
            [(''b'', COMPLETED), (''a'', NOT_STARTED), (''c'', BLOCKED), (''d'', BLOCKED),
             (''x'', NOT_STARTED)])"
proof -
  have h1: "index_closed example_chain"
    by (simp add: index_closed_def example_chain_def build_defs)
  have h2: "nodes_keyed example_chain"
    by (simp add: nodes_keyed_def example_chain_def build_defs)
  have h3: "get_node example_chain ''b'' = Some (Node_init ''b'' DOCUMENT ''Annex 3'' ''Price sheet'' t0 t0)"
    by (simp add: example_chain_def build_defs get_node_def)
  from update_status_completed [OF h1 h2 h3, of "\<lambda>k. t1"] obtain g' where
    r: "update_status (\<lambda>k. t1) example_chain ''b'' COMPLETED =
            Inr (g', Some ((Node_init ''b'' DOCUMENT ''Annex 3'' ''Price sheet'' t0 t0)
                             \<lparr>status := COMPLETED, updated_at := t1\<rparr>))"
    and e: "edges g' = edges example_chain"
    by (elim exE conjE)
  have "map (\<lambda>(k, n). (k, status n)) (nodes (fst (projr (update_status (\<lambda>k. t1) example_chain ''b'' COMPLETED)))) =
            [(''b'', COMPLETED), (''a'', NOT_STARTED), (''c'', BLOCKED), (''d'', BLOCKED),
             (''x'', NOT_STARTED)]"
    by (simp add: example_chain_def build_defs traversal_defs update_status_def
        propagate_completion_def Let_def)
  with r have s: "map (\<lambda>(k, n). (k, status n)) (nodes g') =
            [(''b'', COMPLETED), (''a'', NOT_STARTED), (''c'', BLOCKED), (''d'', BLOCKED),
             (''x'', NOT_STARTED)]" by simp
  show ?thesis
    by (intro conjI exI [where x = g']) (rule h1 h2 h3 r e s)+
qed

section \<open>Completion statistics\<close>

lemma CompletionStatus_value_inj:
  "CompletionStatus_value s = CompletionStatus_value s' \<longleftrightarrow> s = s'"
  by (cases s; cases s') simp_all

lemma count_statuses_counts:
  assumes "\<forall>s. map_of st (CompletionStatus_value s) \<noteq> None"
  shows "\<exists>st'. count_statuses st ns = Inr st' \<and>
           (\<forall>s. map_of st' (CompletionStatus_value s) =
              Some (the (map_of st (CompletionStatus_value s)) + int (length (filter (\<lambda>n. status n = s) ns))))"
  using assms
proof (induction ns arbitrary: st)
  case Nil
  then show ?case by auto
next
  case (Cons n ns)
  let ?k = "CompletionStatus_value (status n)"
  obtain c where c: "map_of st ?k = Some c" using Cons.prems by blast
  let ?st = "AList.update ?k (c + 1) st"
  have "\<forall>s. map_of ?st (CompletionStatus_value s) \<noteq> None"
    using Cons.prems by (simp add: update_conv')
  from Cons.IH [OF this] obtain st' where
    st': "count_statuses ?st ns = Inr st'"
      "\<forall>s. map_of st' (CompletionStatus_value s) =
              Some (the (map_of ?st (CompletionStatus_value s)) + int (length (filter (\<lambda>n. status n = s) ns)))"
    by blast
  have "map_of st' (CompletionStatus_value s) =
              Some (the (map_of st (CompletionStatus_value s)) + int (length (filter (\<lambda>n. status n = s) (n # ns))))" for s
    using st'(2) c by (auto simp: update_conv' CompletionStatus_value_inj)
  then show ?case using st'(1) c by (simp add: dict_item_def)
qed

text \<open>
  Claim C6, as amended. \<open>get_completion_stats\<close> returns normally; it counts the nodes by
  status, and the reported percentage is \<open>round(completed / (total - not_applicable) * 100, 1)\<close>
  when the denominator is positive, and the integer 0 otherwise (the denominator is never
  negative). The statement holds for any float arithmetic.
\<close>

theorem completion_stats_rounded:
  "\<exists>stats. get_completion_stats fl g = Inr stats \<and>
     total_nodes stats = int (length (nodes g)) \<and>
     (\<forall>s. map_of (by_status stats) (CompletionStatus_value s) = Some (int (length (get_nodes_by_status g s)))) \<and>
     completed_items stats = int (length (get_nodes_by_status g COMPLETED)) \<and>
     applicable_items stats =
       int (length (nodes g)) - int (length (get_nodes_by_status g NOT_APPLICABLE)) \<and>
     0 \<le> applicable_items stats \<and>
     completion_percentage stats =
       (if 0 < applicable_items stats
        then PyFloat (round_ndigits fl
               (mul_int fl (truediv fl (completed_items stats) (applicable_items stats)) 100) 1)
        else PyInt 0)"
proof -
  let ?init = "map (\<lambda>s. (CompletionStatus_value s, 0::int)) all_statuses"
  have init: "map_of ?init (CompletionStatus_value s) = Some 0" for s
    by (cases s) (simp_all add: all_statuses_def)
  then have "\<forall>s. map_of ?init (CompletionStatus_value s) \<noteq> None" by simp
  from count_statuses_counts [OF this, of "map snd (nodes g)"] obtain st where
    st: "count_statuses ?init (map snd (nodes g)) = Inr st"
    and cnt: "\<And>s. map_of st (CompletionStatus_value s) = Some (int (length (get_nodes_by_status g s)))"
    by (auto simp: init get_nodes_by_status_def)
  have le: "length (get_nodes_by_status g NOT_APPLICABLE) \<le> length (nodes g)"
    unfolding get_nodes_by_status_def by (metis length_filter_le length_map)
  show ?thesis
    using st cnt [of COMPLETED] cnt [of NOT_APPLICABLE] cnt le
    by (simp add: get_completion_stats_def dict_item_def Let_def py_round_def)
qed


text \<open>
  The claim as stated, without the rounding, fails: with one node of three completed the
  report is 33.3, which is not 1 / 3 * 100.
\<close>

lemmas stats_defs = get_completion_stats_def dict_item_def py_round_def all_statuses_def
  exact_ops_def round_half_even_def item_def Let_def

theorem completion_percentage_counterexample:
  "get_completion_stats exact_ops example_thirds =
     Inr \<lparr>total_nodes = 3,
          by_status = [(''not_started'', 1), (''in_progress'', 1), (''completed'', 1),
                       (''not_applicable'', 0), (''blocked'', 0)],
          completion_percentage = PyFloat (333 / 10), applicable_items = 3, completed_items = 1\<rparr> \<and>
   PyFloat (333 / 10) \<noteq> PyFloat (mul_int exact_ops (truediv exact_ops 1 (3 - 0)) 100)"
proof -
  have f: "\<lfloor>1000 / 3 :: rat\<rfloor> = 333"
    by (rule floor_unique) simp_all
  show ?thesis
    by (simp add: example_thirds_def build_defs stats_defs f)
qed

theorem completion_stats_rounded_witness:
  "get_completion_stats exact_ops example_ten =
     Inr \<lparr>total_nodes = 10,
          by_status = [(''not_started'', 2), (''in_progress'', 1), (''completed'', 4),
                       (''not_applicable'', 2), (''blocked'', 1)],
          completion_percentage = PyFloat 50, applicable_items = 8, completed_items = 4\<rparr> \<and>
   completion_percentage (projr (get_completion_stats exact_ops empty_graph)) = PyInt 0"
proof -
  have e: "get_completion_stats exact_ops example_ten =
     Inr \<lparr>total_nodes = 10,
          by_status = [(''not_started'', 2), (''in_progress'', 1), (''completed'', 4),
                       (''not_applicable'', 2), (''blocked'', 1)],
          completion_percentage = PyFloat 50, applicable_items = 8, completed_items = 4\<rparr>"
    by (simp add: example_ten_def build_defs stats_defs)
  from completion_stats_rounded [of exact_ops empty_graph] obtain stats where
    s: "get_completion_stats exact_ops empty_graph = Inr stats"
       "applicable_items stats = int (length (nodes empty_graph)) - int (length (get_nodes_by_status empty_graph NOT_APPLICABLE))"
       "completion_percentage stats =
         (if 0 < applicable_items stats
          then PyFloat (round_ndigits exact_ops
                 (mul_int exact_ops (truediv exact_ops (completed_items stats) (applicable_items stats)) 100) 1)
          else PyInt 0)"
    by (elim exE conjE)
  have "applicable_items stats = 0"
    using s(2) by (simp add: empty_graph_def get_nodes_by_status_def)
  then have "completion_percentage (projr (get_completion_stats exact_ops empty_graph)) = PyInt 0"
    using s(1,3) by simp
  with e show ?thesis by (intro conjI)
qed

section \<open>Priority of a to-do item\<close>

lemma starts_with_iff: "starts_with sub t \<longleftrightarrow> (\<exists>v. t = sub @ v)"
  by (induction sub t rule: starts_with.induct) auto

lemma py_in_iff: "py_in sub t \<longleftrightarrow> (\<exists>u v. t = u @ sub @ v)"
proof (induction t)
  case Nil
  show ?case by auto
next
  case (Cons c cs)
  show ?case
  proof
    assume "py_in sub (c # cs)"
    then consider "starts_with sub (c # cs)" | "py_in sub cs" by auto
    then show "\<exists>u v. c # cs = u @ sub @ v"
    proof cases
      case 1
      then obtain v where "c # cs = sub @ v" using starts_with_iff by blast
      then have "c # cs = [] @ sub @ v" by simp
      then show ?thesis by blast
    next
      case 2
      then obtain u v where "cs = u @ sub @ v" using Cons by blast
      then have "c # cs = (c # u) @ sub @ v" by simp
      then show ?thesis by blast
    qed
  next
    assume "\<exists>u v. c # cs = u @ sub @ v"
    then obtain u v where uv: "c # cs = u @ sub @ v" by blast
    show "py_in sub (c # cs)"
    proof (cases u)
      case Nil
      then have "starts_with sub (c # cs)" using uv starts_with_iff by auto
      then show ?thesis by simp
    next
      case (Cons a u')
      then have "cs = u' @ sub @ v" using uv by simp
      then have "py_in sub cs" using Cons.IH by blast
      then show ?thesis by simp
    qed
  qed
qed

lemma keywords_lower: "\<forall>k \<in> set CRITICAL_KEYWORDS. py_lower k = k"
  by (simp add: CRITICAL_KEYWORDS_def py_lower_def py_lower_char_def)

lemma lower_example: "py_lower ''Ausschlusskriterium'' = ''ausschluss'' @ ''kriterium''"
  by code_simp

lemma py_in_lower_part:
  assumes "text = u @ w @ v" "py_lower w = keyword"
  shows "py_in keyword (py_lower text)"
proof -
  have "py_lower text = py_lower u @ keyword @ py_lower v"
    using assms by (simp add: py_lower_def)
  then show ?thesis using py_in_iff by blast
qed

text \<open>
  Claim C8. If some part of title + description + source_text equals a curated keyword
  up to case, \<open>_determine_priority\<close> returns CRITICAL, whatever the metadata, the type
  and the graph are. In particular a description that contains "Ausschlusskriterium"
  gives CRITICAL although \<open>is_required\<close> is false.
\<close>

theorem keyword_is_critical:
  "((\<exists>keyword \<in> set CRITICAL_KEYWORDS. \<exists>u w v.
        title node @ description node @ (case source_text node of None \<Rightarrow> [] | Some s \<Rightarrow> s) = u @ w @ v \<and>
        py_lower w = py_lower keyword)
     \<longrightarrow> determine_priority g node = Inr CRITICAL) \<and>
   ((\<exists>u v. description node = u @ ''Ausschlusskriterium'' @ v) \<and>
      map_of (metadata node) ''is_required'' = Some (VBool False)
     \<longrightarrow> determine_priority g node = Inr CRITICAL)"
proof (intro conjI impI)
  assume "\<exists>keyword \<in> set CRITICAL_KEYWORDS. \<exists>u w v.
        title node @ description node @ (case source_text node of None \<Rightarrow> [] | Some s \<Rightarrow> s) = u @ w @ v \<and>
        py_lower w = py_lower keyword"
  then obtain keyword u w v where k: "keyword \<in> set CRITICAL_KEYWORDS"
    and t: "title node @ description node @ (case source_text node of None \<Rightarrow> [] | Some s \<Rightarrow> s) = u @ w @ v"
    and l: "py_lower w = py_lower keyword"
    by blast
  have "py_lower w = keyword" using k l keywords_lower by simp
  from py_in_lower_part [OF t this] have "py_in keyword (text_to_check node)"
    by (simp add: text_to_check_def)
  with k have "list_ex (\<lambda>keyword. py_in keyword (text_to_check node)) CRITICAL_KEYWORDS"
    unfolding list_ex_iff by blast
  then show "determine_priority g node = Inr CRITICAL"
    by (simp add: determine_priority_def)
next
  assume a: "(\<exists>u v. description node = u @ ''Ausschlusskriterium'' @ v) \<and>
      map_of (metadata node) ''is_required'' = Some (VBool False)"
  then obtain u v where d: "description node = u @ ''Ausschlusskriterium'' @ v" by blast
  let ?src = "case source_text node of None \<Rightarrow> [] | Some s \<Rightarrow> s"
  have t: "title node @ description node @ ?src =
             (title node @ u) @ ''Ausschluss'' @ (''kriterium'' @ v @ ?src)"
    using d by simp
  have l: "py_lower ''Ausschluss'' = ''ausschluss''" by code_simp
  from py_in_lower_part [OF t l] have "py_in ''ausschluss'' (text_to_check node)"
    by (simp add: text_to_check_def)
  moreover have "''ausschluss'' \<in> set CRITICAL_KEYWORDS"
    by (simp add: CRITICAL_KEYWORDS_def)
  ultimately have "list_ex (\<lambda>keyword. py_in keyword (text_to_check node)) CRITICAL_KEYWORDS"
    unfolding list_ex_iff by blast
  then show "determine_priority g node = Inr CRITICAL"
    by (simp add: determine_priority_def)
qed

theorem keyword_is_critical_witness:
  "(\<exists>u v. description example_exclusion = u @ ''Ausschlusskriterium'' @ v) \<and>
   map_of (metadata example_exclusion) ''is_required'' = Some (VBool False) \<and>
   determine_priority example_done example_exclusion = Inr CRITICAL"
proof -
  have "description example_exclusion = ''Fehlt die Liste: '' @ ''Ausschlusskriterium'' @ []"
    by (simp add: example_exclusion_def Node_init_def)
  then have h1: "\<exists>u v. description example_exclusion = u @ ''Ausschlusskriterium'' @ v"
    by blast
  have h2: "map_of (metadata example_exclusion) ''is_required'' = Some (VBool False)"
    by (simp add: example_exclusion_def Node_init_def)
  have "determine_priority example_done example_exclusion = Inr CRITICAL"
    by (rule mp [OF conjunct2 [OF keyword_is_critical]]) (intro conjI h1 h2)
  with h1 h2 show ?thesis by (intro conjI)
qed




section \<open>Merging duplicate nodes\<close>

















section \<open>Serialization round trip\<close>

lemma NodeType_of_value: "NodeType_of (NodeType_value t) = Some t"
  by (cases t) (simp_all add: NodeType_of_def)

lemma EdgeType_of_value: "EdgeType_of (EdgeType_value t) = Some t"
  by (cases t) (simp_all add: EdgeType_of_def)

lemma CompletionStatus_of_value: "CompletionStatus_of (CompletionStatus_value s) = Some s"
  by (cases s) (simp_all add: CompletionStatus_of_def all_statuses_def)

lemma Node_roundtrip:
  assumes "iso_inverts isoformat fromiso (created_at n)" "iso_inverts isoformat fromiso (updated_at n)"
    "\<forall>d \<in> set_option (deadline n). iso_inverts isoformat fromiso d"
  shows "Node_from_dict fromiso (Node_to_dict isoformat n) = Inr n"
  using assms
  by (cases "deadline n")
     (simp_all add: Node_from_dict_def Node_to_dict_def NodeType_of_value CompletionStatus_of_value
        iso_inverts_def truthy_def)

lemma Edge_roundtrip: "Edge_from_dict (Edge_to_dict e) = Inr e"
  by (simp add: Edge_from_dict_def Edge_to_dict_def EdgeType_of_value)

lemma from_dict_nodes_fold:
  assumes "\<forall>n \<in> set ns. Node_from_dict fromiso (Node_to_dict isoformat n) = Inr n"
  shows "from_dict_nodes fromiso g (map (Node_to_dict isoformat) ns) = Inr (fold (\<lambda>n g. add_node g n) ns g)"
  using assms by (induction ns arbitrary: g) auto

lemma from_dict_edges_fold:
  "from_dict_edges g (map Edge_to_dict es) = Inr (fold (\<lambda>e g. add_edge g e) es g)"
  by (induction es arbitrary: g) (auto simp: Edge_roundtrip)

lemma update_absent: "k \<notin> fst ` set xs \<Longrightarrow> AList.update k v xs = xs @ [(k, v)]"
  by (induction xs) auto

lemma fold_update_rebuild:
  assumes "distinct (map fst xs)" "\<forall>(k, v) \<in> set xs. key v = k" "fst ` set xs \<inter> fst ` set acc = {}"
  shows "fold (\<lambda>v. AList.update (key v) v) (map snd xs) acc = acc @ xs"
  using assms
proof (induction xs arbitrary: acc)
  case Nil
  show ?case by simp
next
  case (Cons p xs)
  obtain k v where p: "p = (k, v)" by (cases p)
  have kv: "key v = k" using Cons.prems(2) p by simp
  have "k \<notin> fst ` set acc" using Cons.prems(3) p by auto
  then have u: "AList.update k v acc = acc @ [(k, v)]" by (rule update_absent)
  have "fst ` set xs \<inter> fst ` set (acc @ [(k, v)]) = {}"
    using Cons.prems(1,3) p by auto
  with Cons.IH [of "acc @ [(k, v)]"] Cons.prems(1,2) p
  have "fold (\<lambda>v. AList.update (key v) v) (map snd xs) (acc @ [(k, v)]) = (acc @ [(k, v)]) @ xs"
    by auto
  then show ?case using p kv u by simp
qed

lemma nodes_fold_add_node:
  "nodes (fold (\<lambda>n g. add_node g n) ns g) = fold (\<lambda>n. AList.update (node_id n) n) ns (nodes g) \<and>
   edges (fold (\<lambda>n g. add_node g n) ns g) = edges g"
  by (induction ns arbitrary: g) (auto simp: add_node_def)

lemma edges_fold_add_edge:
  "edges (fold (\<lambda>e g. add_edge g e) es g) = fold (\<lambda>e. AList.update (edge_id e) e) es (edges g) \<and>
   nodes (fold (\<lambda>e g. add_edge g e) es g) = nodes g"
  by (induction es arbitrary: g) (auto simp: add_edge_def)

text \<open>
  Claim C5. For a graph of the store (dictionaries with distinct keys, nodes and edges
  stored under their ids) whose timestamps the library's ISO functions take to text and
  back, \<open>from_dict (to_dict g)\<close> returns a graph with the same node dictionary and the
  same edge dictionary as \<open>g\<close>, every field and the order included. In the serialized
  form the type, status and edge type are the enum's string tokens and the timestamps
  are their ISO text.
\<close>

theorem serialization_roundtrip:
  assumes "dicts_distinct g" "nodes_keyed g" "edges_keyed g" "timestamps_roundtrip isoformat fromiso g"
  shows "\<exists>g'. from_dict fromiso (to_dict isoformat g) = Inr g' \<and> nodes g' = nodes g \<and> edges g' = edges g \<and>
           (\<forall>(k, n) \<in> set (nodes g).
              d_type (Node_to_dict isoformat n) = NodeType_value (node_type n) \<and>
              d_status (Node_to_dict isoformat n) = CompletionStatus_value (status n) \<and>
              d_created_at (Node_to_dict isoformat n) = isoformat (created_at n) \<and>
              d_updated_at (Node_to_dict isoformat n) = isoformat (updated_at n) \<and>
              d_deadline (Node_to_dict isoformat n) = map_option isoformat (deadline n)) \<and>
           (\<forall>(k, e) \<in> set (edges g). de_type (Edge_to_dict e) = EdgeType_value (edge_type e))"
proof -
  let ?ns = "map snd (nodes g)" and ?es = "map snd (edges g)"
  have rt: "\<forall>n \<in> set ?ns. Node_from_dict fromiso (Node_to_dict isoformat n) = Inr n"
    using assms(4) unfolding timestamps_roundtrip_def by (auto intro!: Node_roundtrip)
  let ?g1 = "fold (\<lambda>n g. add_node g n) ?ns empty_graph"
  let ?g2 = "fold (\<lambda>e g. add_edge g e) ?es ?g1"
  have run: "from_dict fromiso (to_dict isoformat g) = Inr ?g2"
    by (simp add: from_dict_def to_dict_def from_dict_nodes_fold [OF rt] from_dict_edges_fold
        del: map_map)
  have dn: "distinct (map fst (nodes g))" and de: "distinct (map fst (edges g))"
    using assms(1) by (simp_all add: dicts_distinct_def)
  have kn: "\<forall>(k, v) \<in> set (nodes g). node_id v = k" using assms(2) by (simp add: nodes_keyed_def)
  have ke: "\<forall>(k, v) \<in> set (edges g). edge_id v = k" using assms(3) by (simp add: edges_keyed_def)
  have n: "nodes ?g2 = nodes g"
    using fold_update_rebuild [OF dn kn, of "[]"]
    by (simp add: edges_fold_add_edge nodes_fold_add_node empty_graph_def)
  have e: "edges ?g2 = edges g"
    using fold_update_rebuild [OF de ke, of "[]"]
    by (simp add: edges_fold_add_edge nodes_fold_add_node empty_graph_def)
  have t1: "\<forall>(k, n) \<in> set (nodes g).
              d_type (Node_to_dict isoformat n) = NodeType_value (node_type n) \<and>
              d_status (Node_to_dict isoformat n) = CompletionStatus_value (status n) \<and>
              d_created_at (Node_to_dict isoformat n) = isoformat (created_at n) \<and>
              d_updated_at (Node_to_dict isoformat n) = isoformat (updated_at n) \<and>
              d_deadline (Node_to_dict isoformat n) = map_option isoformat (deadline n)"
    by (auto simp: Node_to_dict_def split: option.splits)
  have t2: "\<forall>(k, e) \<in> set (edges g). de_type (Edge_to_dict e) = EdgeType_value (edge_type e)"
    by (auto simp: Edge_to_dict_def)
  show ?thesis
    by (intro exI conjI) (rule run n e t1 t2)+
qed

theorem serialization_roundtrip_witness:
  "dicts_distinct example_deadline \<and> nodes_keyed example_deadline \<and> edges_keyed example_deadline \<and>
   timestamps_roundtrip isoformat_naive fromisoformat_naive example_deadline \<and>
   isoformat_naive t1 = ''2024-05-18T14:05:09.250000'' \<and>
   (\<exists>g'. from_dict fromisoformat_naive (to_dict isoformat_naive example_deadline) = Inr g' \<and>
      nodes g' = nodes example_deadline \<and> edges g' = edges example_deadline)"
proof -
  have tx: "isoformat_naive t1 = ''2024-05-18T14:05:09.250000''"
    by (simp add: isoformat_naive_def pad2_def digit_def t1_def)
  have "fromisoformat_naive ''2024-05-18T14:05:09.250000'' = Some t1"
    by (simp add: fromisoformat_naive_def digit_value_def t1_def)
  then have i1: "iso_inverts isoformat_naive fromisoformat_naive t1"
    by (simp add: iso_inverts_def tx)
  have tx0: "isoformat_naive t0 = ''2024-05-17T09:30:00''"
    by (simp add: isoformat_naive_def pad2_def digit_def t0_def)
  have "fromisoformat_naive ''2024-05-17T09:30:00'' = Some t0"
    by (simp add: fromisoformat_naive_def digit_value_def t0_def)
  then have i0: "iso_inverts isoformat_naive fromisoformat_naive t0"
    by (simp add: iso_inverts_def tx0)
  have h1: "dicts_distinct example_deadline"
    by (simp add: dicts_distinct_def example_deadline_def item_def build_defs)
  have h2: "nodes_keyed example_deadline"
    by (simp add: nodes_keyed_def example_deadline_def item_def build_defs)
  have h3: "edges_keyed example_deadline"
    by (simp add: edges_keyed_def example_deadline_def item_def build_defs)
  have h4: "timestamps_roundtrip isoformat_naive fromisoformat_naive example_deadline"
    using i0 i1 by (simp add: timestamps_roundtrip_def example_deadline_def item_def build_defs)
  from serialization_roundtrip [OF h1 h2 h3 h4] obtain g' where
    r: "from_dict fromisoformat_naive (to_dict isoformat_naive example_deadline) = Inr g'"
       "nodes g' = nodes example_deadline" "edges g' = edges example_deadline"
    by (elim exE conjE)
  show ?thesis
    by (intro conjI exI [where x = g']) (rule h1 h2 h3 h4 tx r)+
qed

section \<open>Retry policy of the extractor\<close>

lemma create_nodes_effects:
  "create_nodes co document extraction its (g, created, t2n, fx) = (g', created', t2n', fx') \<Longrightarrow>
     llm_calls fx' = llm_calls fx \<and> slept fx' = slept fx \<and> edges g' = edges g"
  by (induction its arbitrary: g created t2n fx) (auto simp: Let_def add_node_def)

lemma connect_effects:
  "connect co (g, created, fx) s t ty d = (g', created', fx') \<Longrightarrow>
     llm_calls fx' = llm_calls fx \<and> slept fx' = slept fx"
  by (auto simp: connect_def Let_def)

lemma link_item_effects:
  assumes "link_item co t2n it (g, created, fx) = (g', created', fx')"
  shows "llm_calls fx' = llm_calls fx \<and> slept fx' = slept fx"
proof -
  have c: "llm_calls (snd (snd (connect co acc s t ty d))) = llm_calls (snd (snd acc)) \<and>
           slept (snd (snd (connect co acc s t ty d))) = slept (snd (snd acc))" for acc s t ty d
    by (cases acc) (auto simp: connect_def Let_def)
  have "llm_calls (snd (snd (link_item co t2n it acc))) = llm_calls (snd (snd acc)) \<and>
        slept (snd (snd (link_item co t2n it acc))) = slept (snd (snd acc))" for acc
    by (auto simp: link_item_def Let_def c split: option.splits)
  from this [of "(g, created, fx)"] assms show ?thesis by simp
qed

lemma fold_link_item_effects:
  "fold (link_item co t2n) its (g, created, fx) = (g', created', fx') \<Longrightarrow>
     llm_calls fx' = llm_calls fx \<and> slept fx' = slept fx"
proof (induction its arbitrary: g created fx)
  case Nil
  then show ?case by simp
next
  case (Cons it its)
  obtain g1 c1 fx1 where l: "link_item co t2n it (g, created, fx) = (g1, c1, fx1)"
    by (cases "link_item co t2n it (g, created, fx)") auto
  from Cons.prems l have "fold (link_item co t2n) its (g1, c1, fx1) = (g', created', fx')" by simp
  from Cons.IH [OF this] link_item_effects [OF l] show ?case by simp
qed

lemma extract_doc_break:
  assumes "doc_error document = None" "py_strip (doc_text document) \<noteq> []"
    and "retry_loop co (doc_path document, doc_filename document,
           truncate_content (doc_text document) max_len) 3 [0, 1, 2] None fx = (Break extraction, fx1)"
  shows "\<exists>g' r fx'. extract_doc co document g max_len fx = Inr (g', r, fx') \<and>
           result_error r = None \<and> raw_extraction r = RawExtraction extraction \<and>
           llm_calls fx' = llm_calls fx1 \<and> slept fx' = slept fx1"
proof -
  have u: "[0 ..< 3] = [0, 1, 2::nat]" by (simp add: upt_rec)
  obtain g1 nc t2n fx2 where
    c: "create_nodes co document extraction (items extraction) (g, [], [], fx1) = (g1, nc, t2n, fx2)"
    by (metis prod_cases4)
  obtain g2 ec fx3 where
    l: "fold (link_item co t2n) (items extraction) (g1, [], fx2) = (g2, ec, fx3)"
    by (metis prod_cases3)
  show ?thesis
    using assms c l create_nodes_effects [OF c] fold_link_item_effects [OF l]
    by (simp add: extract_doc_def is_successful_def truthy_def u Let_def)
qed

lemma extract_doc_return:
  assumes "doc_error document = None" "py_strip (doc_text document) \<noteq> []"
    and "retry_loop co (doc_path document, doc_filename document,
           truncate_content (doc_text document) max_len) 3 [0, 1, 2] None fx = (Return raw err, fx1)"
  shows "extract_doc co document g max_len fx =
           Inr (g, \<lparr>document_path = doc_path document, nodes_created = [], edges_created = [],
                    raw_extraction = raw, result_error = Some err\<rparr>, fx1)"
proof -
  have u: "[0 ..< 3] = [0, 1, 2::nat]" by (simp add: upt_rec)
  show ?thesis
    using assms by (simp add: extract_doc_def is_successful_def truthy_def u Let_def)
qed

text \<open>
  Claim C7, as amended. For a readable document with text: if the first two calls raise
  an exception whose text carries a transient marker and the third returns a response
  that parses, \<open>extract\<close> returns a result without error after exactly three calls
  (having slept 2 and 4 seconds). If, after attempts that were retried, a call raises
  an exception that is not a \<open>ValueError\<close> and carries no marker, \<open>extract\<close> returns at
  once: no further call, the graph untouched, the error \<open>LLM API error: ...\<close> in the
  result. A \<open>ValueError\<close> (a JSON decode error is one) is not covered by the second
  part: it is retried whatever its text.
\<close>

theorem extract_retry_policy:
  assumes "doc_error document = None" "py_strip (doc_text document) \<noteq> []"
    and "prompt = (doc_path document, doc_filename document,
                   truncate_content (doc_text document) max_len)"
    and "n = llm_calls fx"
  shows "(llm co n prompt = Raises c0 m0 \<and> retryable m0 \<and>
          llm co (n + 1) prompt = Raises c1 m1 \<and> retryable m1 \<and>
          llm co (n + 2) prompt = Content response \<and> json_loads co response = Inr extraction
          \<longrightarrow> (\<exists>g' r fx'. extract_doc co document g max_len fx = Inr (g', r, fx') \<and>
                 result_error r = None \<and> raw_extraction r = RawExtraction extraction \<and>
                 llm_calls fx' = n + 3 \<and> slept fx' = slept fx @ [2, 4])) \<and>
         (k < 3 \<and> (\<forall>j < k. retried co (llm co (n + j) prompt)) \<and>
          llm co (n + k) prompt = Raises OtherException msg \<and> \<not> retryable msg
          \<longrightarrow> (\<exists>fx'. extract_doc co document g max_len fx =
                   Inr (g, \<lparr>document_path = doc_path document, nodes_created = [],
                            edges_created = [], raw_extraction = RawEmpty,
                            result_error = Some (''LLM API error: '' @ msg)\<rparr>, fx') \<and>
                 llm_calls fx' = n + k + 1))"
proof (intro conjI impI)
  assume a: "llm co n prompt = Raises c0 m0 \<and> retryable m0 \<and>
          llm co (n + 1) prompt = Raises c1 m1 \<and> retryable m1 \<and>
          llm co (n + 2) prompt = Content response \<and> json_loads co response = Inr extraction"
  let ?fx1 = "fx\<lparr>slept := slept fx @ [2, 4], llm_calls := n + 3\<rparr>"
  have "retry_loop co prompt 3 [0, 1, 2] None fx = (Break extraction, ?fx1)"
    using a assms(4) by (cases c0; cases c1) (simp_all add: run_attempt_def Let_def)
  from extract_doc_break [OF assms(1,2) this [unfolded assms(3)], of g]
  show "\<exists>g' r fx'. extract_doc co document g max_len fx = Inr (g', r, fx') \<and>
                 result_error r = None \<and> raw_extraction r = RawExtraction extraction \<and>
                 llm_calls fx' = n + 3 \<and> slept fx' = slept fx @ [2, 4]"
    by simp
next
  assume b: "k < 3 \<and> (\<forall>j < k. retried co (llm co (n + j) prompt)) \<and>
          llm co (n + k) prompt = Raises OtherException msg \<and> \<not> retryable msg"
  have step_eq: "retry_loop co prompt 3 (a # rest) rt f =
                retry_loop co prompt 3 rest
                  (case run_attempt (json_loads co) (llm co (llm_calls f) prompt) of
                     Raised JSONDecodeError _ (Some t) \<Rightarrow> Some t | _ \<Rightarrow> rt)
                  ((if 0 < a then f\<lparr>slept := slept f @ [2 * 2 ^ (a - 1)]\<rparr> else f)
                     \<lparr>llm_calls := llm_calls f + 1\<rparr>)"
    if "a < 2" "retried co (llm co (llm_calls f) prompt)" for a rest rt f
    using that
    by (auto simp: retried_def Let_def split: attempt_outcome.splits exception_class.splits option.splits)
  have step: "\<exists>rt' f'. retry_loop co prompt 3 (a # rest) rt f = retry_loop co prompt 3 rest rt' f' \<and>
                 llm_calls f' = llm_calls f + 1"
    if "a < 2" "retried co (llm co (llm_calls f) prompt)" for a rest rt f
  proof -
    have "llm_calls ((if 0 < a then f\<lparr>slept := slept f @ [2 * 2 ^ (a - 1)]\<rparr> else f)
                     \<lparr>llm_calls := llm_calls f + 1\<rparr>) = llm_calls f + 1"
      by simp
    with step_eq [OF that, of rest rt] show ?thesis by blast
  qed
  have last: "\<exists>f'. retry_loop co prompt 3 (a # rest) rt f =
                 (Return RawEmpty (''LLM API error: '' @ msg), f') \<and> llm_calls f' = llm_calls f + 1"
    if "llm co (llm_calls f) prompt = Raises OtherException msg" for a rest rt f
    using that b by (simp add: run_attempt_def Let_def)
  from b have "k = 0 \<or> k = 1 \<or> k = 2" by auto
  then have "\<exists>f'. retry_loop co prompt 3 [0, 1, 2] None fx =
                 (Return RawEmpty (''LLM API error: '' @ msg), f') \<and> llm_calls f' = n + k + 1"
  proof (elim disjE)
    assume k: "k = 0"
    then have "llm co (llm_calls fx) prompt = Raises OtherException msg"
      using b assms(4) by simp
    from last [OF this, of 0 "[1, 2]" None] show ?thesis
      unfolding k assms(4) by simp
  next
    assume k: "k = 1"
    with b have "\<And>j. j < 1 \<Longrightarrow> retried co (llm co (n + j) prompt)" by simp
    from this [of 0] have "retried co (llm co (llm_calls fx) prompt)" using assms(4) by simp
    from step [OF _ this, of 0 "[1, 2]" None] obtain rt1 f1 where
      e1: "retry_loop co prompt 3 [0, 1, 2] None fx = retry_loop co prompt 3 [1, 2] rt1 f1"
      and c1: "llm_calls f1 = llm_calls fx + 1"
      by auto
    have "llm co (llm_calls f1) prompt = Raises OtherException msg"
      using b k assms(4) c1 by simp
    from last [OF this, of 1 "[2]" rt1] obtain f' where
      l: "retry_loop co prompt 3 [1, 2] rt1 f1 = (Return RawEmpty (''LLM API error: '' @ msg), f')"
      and c: "llm_calls f' = llm_calls f1 + 1"
      by auto
    have "llm_calls f' = n + k + 1" using c c1 k assms(4) by simp
    moreover have "retry_loop co prompt 3 [0, 1, 2] None fx =
        (Return RawEmpty (''LLM API error: '' @ msg), f')" by (rule trans [OF e1 l])
    ultimately show ?thesis by blast
  next
    assume k: "k = 2"
    with b have al: "\<And>j. j < 2 \<Longrightarrow> retried co (llm co (n + j) prompt)" by simp
    have r0: "retried co (llm co (llm_calls fx) prompt)"
      using al [of 0] assms(4) by simp
    have r1: "retried co (llm co (llm_calls fx + 1) prompt)"
      using al [of 1] assms(4) by simp
    from step [OF _ r0, of 0 "[1, 2]" None] obtain rt1 f1 where
      e1: "retry_loop co prompt 3 [0, 1, 2] None fx = retry_loop co prompt 3 [1, 2] rt1 f1"
      and c1: "llm_calls f1 = llm_calls fx + 1"
      by auto
    have "retried co (llm co (llm_calls f1) prompt)" using r1 c1 by simp
    from step [OF _ this, of 1 "[2]" rt1] obtain rt2 f2 where
      e2: "retry_loop co prompt 3 [1, 2] rt1 f1 = retry_loop co prompt 3 [2] rt2 f2"
      and c2: "llm_calls f2 = llm_calls f1 + 1"
      by auto
    have "llm co (llm_calls f2) prompt = Raises OtherException msg"
      using b k assms(4) c1 c2 by (simp add: numeral_2_eq_2)
    from last [OF this, of 2 "[]" rt2] obtain f' where
      l: "retry_loop co prompt 3 [2] rt2 f2 = (Return RawEmpty (''LLM API error: '' @ msg), f')"
      and c: "llm_calls f' = llm_calls f2 + 1"
      by auto
    have "llm_calls f' = n + k + 1" using c c1 c2 k assms(4) by simp
    moreover have "retry_loop co prompt 3 [0, 1, 2] None fx =
        (Return RawEmpty (''LLM API error: '' @ msg), f')" by (rule trans [OF e1 trans [OF e2 l]])
    ultimately show ?thesis by blast
  qed
  then obtain f' where
    f: "retry_loop co prompt 3 [0, 1, 2] None fx = (Return RawEmpty (''LLM API error: '' @ msg), f')"
       "llm_calls f' = n + k + 1"
    by blast
  from extract_doc_return [OF assms(1,2) f(1) [unfolded assms(3)], of g] f(2)
  show "\<exists>fx'. extract_doc co document g max_len fx =
                   Inr (g, \<lparr>document_path = doc_path document, nodes_created = [],
                            edges_created = [], raw_extraction = RawEmpty,
                            result_error = Some (''LLM API error: '' @ msg)\<rparr>, fx') \<and>
                 llm_calls fx' = n + k + 1"
    by blast
qed

text \<open>
  The claim as stated ends extraction at any exception without a marker. A
  \<open>ValueError\<close> with the text "bad request" has none, and yet the second call is made and
  the result carries no error.
\<close>

theorem value_error_retried_counterexample:
  "\<not> retryable ''bad request'' \<and>
   (\<exists>g' r fx'.
      extract_doc (stub [Raises ValueErrorClass ''bad request'', Content ''{items}''])
        example_document empty_graph 50000 no_effects = Inr (g', r, fx') \<and>
      result_error r = None \<and> llm_calls fx' = 2)"
proof -
  have m: "\<not> retryable ''bad request''" by code_simp
  have d: "doc_error example_document = None" by (simp add: example_document_def)
  have t: "py_strip (doc_text example_document) \<noteq> []" by code_simp
  have "retry_loop (stub [Raises ValueErrorClass ''bad request'', Content ''{items}''])
          (doc_path example_document, doc_filename example_document,
           truncate_content (doc_text example_document) 50000) 3 [0, 1, 2] None no_effects =
        (Break example_items, no_effects\<lparr>slept := [2], llm_calls := 2\<rparr>)"
    by (simp add: stub_def run_attempt_def no_effects_def Let_def)
  from extract_doc_break [OF d t this, of empty_graph] m show ?thesis
    by (simp add: no_effects_def) blast
qed

theorem extract_retry_policy_witness:
  "doc_error example_document = None \<and> py_strip (doc_text example_document) \<noteq> [] \<and>
   retryable ''Error code: 429 - Rate limit exceeded'' \<and> retryable ''Request Timeout'' \<and>
   (\<exists>g' r fx'.
      extract_doc (stub [Raises OtherException ''Error code: 429 - Rate limit exceeded'',
                         Raises OtherException ''Request Timeout'', Content ''{items}''])
        example_document empty_graph 50000 no_effects = Inr (g', r, fx') \<and>
      result_error r = None \<and> llm_calls fx' = 3) \<and>
   \<not> retryable ''Error code: 401 - invalid api key'' \<and>
   (\<exists>r fx'.
      extract_doc (stub [Raises OtherException ''Error code: 401 - invalid api key'', Content ''{items}''])
        example_document empty_graph 50000 no_effects = Inr (empty_graph, r, fx') \<and>
      result_error r = Some ''LLM API error: Error code: 401 - invalid api key'' \<and>
      llm_calls fx' = 1)"
proof -
  let ?prompt = "(doc_path example_document, doc_filename example_document,
                  truncate_content (doc_text example_document) 50000)"
  let ?co1 = "stub [Raises OtherException ''Error code: 429 - Rate limit exceeded'',
                    Raises OtherException ''Request Timeout'', Content ''{items}'']"
  let ?co2 = "stub [Raises OtherException ''Error code: 401 - invalid api key'', Content ''{items}'']"
  have d: "doc_error example_document = None" by (simp add: example_document_def)
  have t: "py_strip (doc_text example_document) \<noteq> []" by code_simp
  have m1: "retryable ''Error code: 429 - Rate limit exceeded''" by code_simp
  have m2: "retryable ''Request Timeout''" by code_simp
  have m3: "\<not> retryable ''Error code: 401 - invalid api key''" by code_simp
  have n: "0 = llm_calls no_effects" by (simp add: no_effects_def)
  have a: "llm ?co1 0 ?prompt = Raises OtherException ''Error code: 429 - Rate limit exceeded'' \<and>
           retryable ''Error code: 429 - Rate limit exceeded'' \<and>
           llm ?co1 (0 + 1) ?prompt = Raises OtherException ''Request Timeout'' \<and>
           retryable ''Request Timeout'' \<and>
           llm ?co1 (0 + 2) ?prompt = Content ''{items}'' \<and>
           json_loads ?co1 ''{items}'' = Inr example_items"
    using m1 m2 by (simp add: stub_def)
  have p1: "\<exists>g' r fx'.
      extract_doc ?co1 example_document empty_graph 50000 no_effects = Inr (g', r, fx') \<and>
      result_error r = None \<and> llm_calls fx' = 3"
    using mp [OF conjunct1 [OF extract_retry_policy [OF d t refl n]] a, of empty_graph]
    by simp blast
  have b: "(0::nat) < 3 \<and> (\<forall>j < (0::nat). retried ?co2 (llm ?co2 (0 + j) ?prompt)) \<and>
           llm ?co2 (0 + 0) ?prompt = Raises OtherException ''Error code: 401 - invalid api key'' \<and>
           \<not> retryable ''Error code: 401 - invalid api key''"
    using m3 by (simp add: stub_def)
  from mp [OF conjunct2 [OF extract_retry_policy [OF d t refl n]] b, of empty_graph]
  obtain fx' where
    e: "extract_doc ?co2 example_document empty_graph 50000 no_effects =
          Inr (empty_graph,
               \<lparr>document_path = doc_path example_document, nodes_created = [], edges_created = [],
                raw_extraction = RawEmpty,
                result_error = Some (''LLM API error: '' @ ''Error code: 401 - invalid api key'')\<rparr>,
               fx')"
    and c: "llm_calls fx' = 0 + 0 + 1"
    by (elim exE conjE)
  have p2: "\<exists>r fx'.
      extract_doc ?co2 example_document empty_graph 50000 no_effects = Inr (empty_graph, r, fx') \<and>
      result_error r = Some ''LLM API error: Error code: 401 - invalid api key'' \<and>
      llm_calls fx' = 1"
    by (intro exI conjI) (rule e, simp, use c in simp)
  show ?thesis by (intro conjI d t m1 m2 m3 p1 p2)
qed

section \<open>Reprocessing a changed document\<close>

























end
